theory Spec2Isabelle
  imports Complex_Main
begin

section \<open>Values, arguments and results\<close>

text \<open>
  A \<^verbatim>\<open>double\<close> as far as the control flow of \<^verbatim>\<open>inv_chi_square_cdf\<close> tells values
  apart: not-a-number, the two infinities and the finite values. The two signed zeros
  are one value \<open>Fin 0\<close> (they compare equal in \<^verbatim>\<open>value_of(y_vec[i]) == 0\<close>).
\<close>

datatype dbl = NaN | NInf | PInf | Fin real

text \<open>
  The template parameters \<^verbatim>\<open>T_y\<close> and \<^verbatim>\<open>T_dof\<close> range over a single number and a
  sequence of numbers; whether the argument is differentiable
  (\<^verbatim>\<open>!is_constant_struct<T>::value\<close>) is passed to the function as a flag.
\<close>

datatype arg = Scalar dbl | Seq "dbl list"

datatype error = DomainError | InvalidArgumentError

text \<open>
  What the call returns: the probability and, for each differentiable argument, one
  gradient value per element of that argument (\<open>None\<close>: no gradient slots).
\<close>

record result =
  val :: dbl
  grad_y :: "dbl list option"
  grad_nu :: "dbl list option"

text \<open>
  The arithmetic of \<^verbatim>\<open>T_partials_return\<close> and the special functions are supplied to the
  function; nothing is assumed about rounding. \<open>fmul\<close>, \<open>fdiv\<close>, \<open>fadd\<close>, \<open>fsub\<close> are
  \<^verbatim>\<open>*\<close>, \<^verbatim>\<open>/\<close>, \<^verbatim>\<open>+\<close>, \<^verbatim>\<open>-\<close>; \<open>fexp\<close> and \<open>fpow\<close> are \<^verbatim>\<open>exp\<close> and \<^verbatim>\<open>pow\<close>.
\<close>

record arith =
  fmul :: "dbl \<Rightarrow> dbl \<Rightarrow> dbl"
  fdiv :: "dbl \<Rightarrow> dbl \<Rightarrow> dbl"
  fadd :: "dbl \<Rightarrow> dbl \<Rightarrow> dbl"
  fsub :: "dbl \<Rightarrow> dbl \<Rightarrow> dbl"
  fexp :: "dbl \<Rightarrow> dbl"
  fpow :: "dbl \<Rightarrow> dbl \<Rightarrow> dbl"
  tgamma :: "dbl \<Rightarrow> dbl"
  digamma :: "dbl \<Rightarrow> dbl"
  gamma_q :: "dbl \<Rightarrow> dbl \<Rightarrow> dbl"
  grad_reg_inc_gamma :: "dbl \<Rightarrow> dbl \<Rightarrow> dbl \<Rightarrow> dbl \<Rightarrow> dbl"

section \<open>The broadcasting view\<close>

text \<open>Modelled from the spec: \<^verbatim>\<open>stan::length\<close> (meta/length.hpp is not under src/);
  a single value has length 1.\<close>

fun length_arg :: "arg \<Rightarrow> nat" where
  "length_arg (Scalar x) = 1"
| "length_arg (Seq xs) = length xs"

text \<open>Modelled from the spec: the elements of an argument by their own index.\<close>

fun elems :: "arg \<Rightarrow> dbl list" where
  "elems (Scalar x) = [x]"
| "elems (Seq xs) = xs"

text \<open>Modelled from the spec: \<^verbatim>\<open>size_zero\<close> (fun/size_zero.hpp is not under src/):
  either argument is an empty sequence.\<close>

definition size_zero :: "arg \<Rightarrow> arg \<Rightarrow> bool" where
  "size_zero y nu = (length_arg y = 0 \<or> length_arg nu = 0)"

text \<open>Modelled from the spec: \<^verbatim>\<open>max_size\<close>, the broadcast length.\<close>

definition max_size :: "arg \<Rightarrow> arg \<Rightarrow> nat" where
  "max_size y nu = max (length_arg y) (length_arg nu)"

text \<open>Modelled from the spec: the element of an argument of length \<open>len\<close> that broadcast
  position \<open>n\<close> maps to (index-0 replication when the length is 1, direct indexing
  otherwise). The same map selects the gradient slot of \<^verbatim>\<open>partials_[n]\<close> and the cache
  entry of \<^verbatim>\<open>gamma_vec[n]\<close> (operands_and_partials.hpp and VectorBuilder.hpp are not
  under src/).\<close>

definition slot_of :: "nat \<Rightarrow> nat \<Rightarrow> nat" where
  "slot_of len n = (if len = 1 then 0 else n)"

text \<open>Modelled from the spec: \<^verbatim>\<open>scalar_seq_view<T>::operator[]\<close>
  (meta/scalar_seq_view.hpp is not under src/).\<close>

definition view :: "arg \<Rightarrow> nat \<Rightarrow> dbl" where
  "view a n = elems a ! slot_of (length_arg a) n"

section \<open>Input validation\<close>

text \<open>Modelled from the spec: the conditions that the checks put on one element: finite
  and strictly positive; NaN; non-negative (\<open>+\<infinity>\<close> is, NaN is not); negative.\<close>

definition is_positive_finite :: "dbl \<Rightarrow> bool" where
  "is_positive_finite v = (case v of Fin r \<Rightarrow> 0 < r | _ \<Rightarrow> False)"

definition is_nan :: "dbl \<Rightarrow> bool" where
  "is_nan v = (v = NaN)"

definition is_nonnegative :: "dbl \<Rightarrow> bool" where
  "is_nonnegative v = (case v of Fin r \<Rightarrow> 0 \<le> r | PInf \<Rightarrow> True | _ \<Rightarrow> False)"

definition is_negative :: "dbl \<Rightarrow> bool" where
  "is_negative v = (case v of Fin r \<Rightarrow> r < 0 | NInf \<Rightarrow> True | _ \<Rightarrow> False)"

text \<open>Modelled from the spec: \<^verbatim>\<open>check_positive_finite\<close> (err/check_positive_finite.hpp
  is not under src/): a domain error unless every element is finite and strictly
  positive. \<open>Some e\<close> is the exception thrown.\<close>

definition check_positive_finite :: "arg \<Rightarrow> error option" where
  "check_positive_finite a =
     (if list_all is_positive_finite (elems a) then None else Some DomainError)"

text \<open>Modelled from the spec: \<^verbatim>\<open>check_not_nan\<close> (err/check_not_nan.hpp is not under
  src/).\<close>

definition check_not_nan :: "arg \<Rightarrow> error option" where
  "check_not_nan a = (if list_ex is_nan (elems a) then Some DomainError else None)"

text \<open>Modelled from the spec: \<^verbatim>\<open>check_nonnegative\<close> (err/check_nonnegative.hpp is not
  under src/).\<close>

definition check_nonnegative :: "arg \<Rightarrow> error option" where
  "check_nonnegative a =
     (if list_all is_nonnegative (elems a) then None else Some DomainError)"

text \<open>Modelled from the spec: the lengths are broadcast-compatible when each of them
  is the broadcast length or 1.\<close>

definition consistent_sizes :: "arg \<Rightarrow> arg \<Rightarrow> bool" where
  "consistent_sizes y nu =
     ((length_arg y = max_size y nu \<or> length_arg y = 1) \<and>
      (length_arg nu = max_size y nu \<or> length_arg nu = 1))"

text \<open>Modelled from the spec: \<^verbatim>\<open>check_consistent_sizes\<close>
  (err/check_consistent_sizes.hpp is not under src/).\<close>

definition check_consistent_sizes :: "arg \<Rightarrow> arg \<Rightarrow> error option" where
  "check_consistent_sizes y nu =
     (if consistent_sizes y nu then None else Some InvalidArgumentError)"

section \<open>The accumulators\<close>

text \<open>The running product \<^verbatim>\<open>P\<close> and the two partials buffers of \<^verbatim>\<open>ops_partials\<close>.\<close>

record accum =
  run_P :: dbl
  edge1_partials :: "dbl list"
  edge2_partials :: "dbl list"

text \<open>Modelled from the spec: the constructor of \<^verbatim>\<open>operands_and_partials\<close>
  (meta/operands_and_partials.hpp is not under src/): a buffer of zeros as long as the
  argument for a differentiable argument, no buffer otherwise. \<^verbatim>\<open>P\<close> starts at 1.0
  (line 59).\<close>

definition init_accum :: "bool \<Rightarrow> bool \<Rightarrow> arg \<Rightarrow> arg \<Rightarrow> accum" where
  "init_accum dy dnu y nu =
     \<lparr>run_P = Fin 1,
      edge1_partials = (if dy then replicate (length_arg y) (Fin 0) else []),
      edge2_partials = (if dnu then replicate (length_arg nu) (Fin 0) else [])\<rparr>"

text \<open>Modelled from the spec: \<^verbatim>\<open>ops_partials.build(v)\<close>: the value with the gradient
  slots of the differentiable arguments.\<close>

definition build :: "bool \<Rightarrow> bool \<Rightarrow> accum \<Rightarrow> dbl \<Rightarrow> result" where
  "build dy dnu st v =
     \<lparr>val = v,
      grad_y = (if dy then Some (edge1_partials st) else None),
      grad_nu = (if dnu then Some (edge2_partials st) else None)\<rparr>"

text \<open>The scan of lines 75-77 over the elements of \<open>y\<close> by their own index.\<close>

fun zero_scan :: "dbl list \<Rightarrow> bool" where
  "zero_scan [] = False"
| "zero_scan (v # vs) = (if v = Fin 0 then True else zero_scan vs)"

text \<open>A counting loop \<^verbatim>\<open>for (size_t n = n0; n < N; n++) body\<close> on a state.\<close>

function for_loop :: "nat \<Rightarrow> nat \<Rightarrow> (nat \<Rightarrow> 's \<Rightarrow> 's) \<Rightarrow> 's \<Rightarrow> 's" where
  "for_loop n N body st = (if n < N then for_loop (Suc n) N body (body n st) else st)"
  by pat_completeness auto
termination
  by (relation "measure (\<lambda>(n, N, body, st). N - n)") auto

declare for_loop.simps [simp del]

section \<open>The main loop\<close>

text \<open>Line 106: \<^verbatim>\<open>Pn = gamma_q(0.5 * nu_dbl, 0.5 * y_inv_dbl)\<close> with
  \<^verbatim>\<open>y_inv_dbl = 1.0 / y_dbl\<close>.\<close>

definition y_inv :: "arith \<Rightarrow> arg \<Rightarrow> nat \<Rightarrow> dbl" where
  "y_inv ops y n = fdiv ops (Fin 1) (view y n)"

definition Pn_at :: "arith \<Rightarrow> arg \<Rightarrow> arg \<Rightarrow> nat \<Rightarrow> dbl" where
  "Pn_at ops y nu n =
     gamma_q ops (fmul ops (Fin (1/2)) (view nu n)) (fmul ops (Fin (1/2)) (y_inv ops y n))"

text \<open>Lines 112-114: what position \<open>n\<close> adds to its slot of the \<open>y\<close> partials.\<close>

definition y_term :: "arith \<Rightarrow> arg \<Rightarrow> arg \<Rightarrow> nat \<Rightarrow> dbl" where
  "y_term ops y nu n =
     (let y_inv_dbl = y_inv ops y n; nu_dbl = view nu n in
      fdiv ops
        (fdiv ops
          (fmul ops
            (fmul ops
              (fmul ops (fmul ops (Fin (1/2)) y_inv_dbl) y_inv_dbl)
              (fexp ops (fmul ops (Fin (- (1/2))) y_inv_dbl)))
            (fpow ops (fmul ops (Fin (1/2)) y_inv_dbl)
                      (fsub ops (fmul ops (Fin (1/2)) nu_dbl) (Fin 1))))
          (tgamma ops (fmul ops (Fin (1/2)) nu_dbl)))
        (Pn_at ops y nu n))"

text \<open>Lines 117-120: what position \<open>n\<close> adds to its slot of the \<open>nu\<close> partials, from the
  cached \<^verbatim>\<open>gamma_vec[n]\<close> and \<^verbatim>\<open>digamma_vec[n]\<close>.\<close>

definition nu_term :: "arith \<Rightarrow> arg \<Rightarrow> arg \<Rightarrow> dbl list \<Rightarrow> dbl list \<Rightarrow> nat \<Rightarrow> dbl" where
  "nu_term ops y nu gamma_vec digamma_vec n =
     fdiv ops
       (fmul ops (Fin (1/2))
          (grad_reg_inc_gamma ops
             (fmul ops (Fin (1/2)) (view nu n))
             (fmul ops (Fin (1/2)) (y_inv ops y n))
             (gamma_vec ! slot_of (length_arg nu) n)
             (digamma_vec ! slot_of (length_arg nu) n)))
       (Pn_at ops y nu n)"

text \<open>\<^verbatim>\<open>partials_[n] += c\<close>.\<close>

definition add_at :: "arith \<Rightarrow> dbl list \<Rightarrow> nat \<Rightarrow> dbl \<Rightarrow> dbl list" where
  "add_at ops xs i c = xs[i := fadd ops (xs ! i) c]"

text \<open>The body of the loop of lines 95-121.\<close>

definition loop_body ::
  "arith \<Rightarrow> bool \<Rightarrow> bool \<Rightarrow> arg \<Rightarrow> arg \<Rightarrow> dbl list \<Rightarrow> dbl list \<Rightarrow> nat \<Rightarrow> accum \<Rightarrow> accum" where
  "loop_body ops dy dnu y nu gamma_vec digamma_vec n st =
     (if view y n = PInf then st
      else
        let st1 = st\<lparr>run_P := fmul ops (run_P st) (Pn_at ops y nu n)\<rparr>;
            st2 = (if dy
                   then st1\<lparr>edge1_partials :=
                          add_at ops (edge1_partials st1) (slot_of (length_arg y) n)
                            (y_term ops y nu n)\<rparr>
                   else st1)
        in (if dnu
            then st2\<lparr>edge2_partials :=
                   add_at ops (edge2_partials st2) (slot_of (length_arg nu) n)
                     (nu_term ops y nu gamma_vec digamma_vec n)\<rparr>
            else st2))"

text \<open>\<^verbatim>\<open>partials_[n] *= P\<close> (lines 125 and 129).\<close>

definition scale_at :: "arith \<Rightarrow> dbl \<Rightarrow> nat \<Rightarrow> dbl list \<Rightarrow> dbl list" where
  "scale_at ops p n xs = xs[n := fmul ops (xs ! n) p]"

text \<open>Lines 88-92: \<^verbatim>\<open>gamma_vec[i] = tgamma(0.5 * nu_dbl)\<close> and
  \<^verbatim>\<open>digamma_vec[i] = digamma(0.5 * nu_dbl)\<close> for every element of \<open>nu\<close> by its own
  index.\<close>

definition precompute_gamma :: "arith \<Rightarrow> arg \<Rightarrow> dbl list" where
  "precompute_gamma ops nu = map (\<lambda>nu_dbl. tgamma ops (fmul ops (Fin (1/2)) nu_dbl)) (elems nu)"

definition precompute_digamma :: "arith \<Rightarrow> arg \<Rightarrow> dbl list" where
  "precompute_digamma ops nu =
     map (\<lambda>nu_dbl. digamma ops (fmul ops (Fin (1/2)) nu_dbl)) (elems nu)"

section \<open>The function\<close>

definition inv_chi_square_cdf ::
  "arith \<Rightarrow> bool \<Rightarrow> bool \<Rightarrow> arg \<Rightarrow> arg \<Rightarrow> error + result" where
  "inv_chi_square_cdf ops dy dnu y nu =
     (if size_zero y nu then Inr \<lparr>val = Fin 1, grad_y = None, grad_nu = None\<rparr>
      else case check_positive_finite nu of Some e \<Rightarrow> Inl e | None \<Rightarrow>
       (case check_not_nan y of Some e \<Rightarrow> Inl e | None \<Rightarrow>
        (case check_nonnegative y of Some e \<Rightarrow> Inl e | None \<Rightarrow>
         (case check_consistent_sizes y nu of Some e \<Rightarrow> Inl e | None \<Rightarrow>
          (let N = max_size y nu;
               ops_partials = init_accum dy dnu y nu
           in if zero_scan (elems y) then Inr (build dy dnu ops_partials (Fin 0))
              else
                let gamma_vec = (if dnu then precompute_gamma ops nu else []);
                    digamma_vec = (if dnu then precompute_digamma ops nu else []);
                    st = for_loop 0 N (loop_body ops dy dnu y nu gamma_vec digamma_vec)
                           ops_partials;
                    st1 = (if dy
                           then st\<lparr>edge1_partials :=
                                  for_loop 0 (length_arg y) (scale_at ops (run_P st))
                                    (edge1_partials st)\<rparr>
                           else st);
                    st2 = (if dnu
                           then st1\<lparr>edge2_partials :=
                                  for_loop 0 (length_arg nu) (scale_at ops (run_P st1))
                                    (edge2_partials st1)\<rparr>
                           else st1)
                in Inr (build dy dnu st2 (run_P st2)))))))"

section \<open>The vocabulary of the specification\<close>

text \<open>A valid input: every element of \<open>nu\<close> positive and finite, every element of \<open>y\<close>
  non-negative and not NaN, the lengths broadcast-compatible.\<close>

definition valid_input :: "arg \<Rightarrow> arg \<Rightarrow> bool" where
  "valid_input y nu =
     (list_all is_positive_finite (elems nu) \<and> \<not> list_ex is_nan (elems y) \<and>
      list_all is_nonnegative (elems y) \<and> consistent_sizes y nu)"

text \<open>An element that fails the domain checks.\<close>

definition domain_violation :: "arg \<Rightarrow> arg \<Rightarrow> bool" where
  "domain_violation y nu =
     (list_ex (\<lambda>v. \<not> is_positive_finite v) (elems nu) \<or>
      list_ex (\<lambda>v. is_nan v \<or> is_negative v) (elems y))"

text \<open>The product of a list of factors, multiplied one after the other into a total that
  starts at 1.0, and the sum of a list of contributions, added one after the other to a
  slot that starts at 0.0.\<close>

definition running_product :: "arith \<Rightarrow> dbl list \<Rightarrow> dbl" where
  "running_product ops ps = foldl (fmul ops) (Fin 1) ps"

definition running_sum :: "arith \<Rightarrow> dbl list \<Rightarrow> dbl" where
  "running_sum ops cs = foldl (fadd ops) (Fin 0) cs"

text \<open>The broadcast positions \<open>n\<close> in \<open>[0, N)\<close> with \<open>y(n)\<close> not \<open>+\<infinity>\<close>, in increasing order,
  and those of them that map to element \<open>j\<close> of an argument of length \<open>len\<close>.\<close>

definition positions :: "arg \<Rightarrow> arg \<Rightarrow> nat list" where
  "positions y nu = filter (\<lambda>n. view y n \<noteq> PInf) [0..<max_size y nu]"

definition slot_positions :: "nat \<Rightarrow> nat \<Rightarrow> arg \<Rightarrow> arg \<Rightarrow> nat list" where
  "slot_positions len j y nu = filter (\<lambda>n. slot_of len n = j) (positions y nu)"

text \<open>The total product \<open>P\<close> of the factors \<open>Q(nu(n)/2, (1/y(n))/2)\<close> over these positions.\<close>

definition total_P :: "arith \<Rightarrow> arg \<Rightarrow> arg \<Rightarrow> dbl" where
  "total_P ops y nu = running_product ops (map (Pn_at ops y nu) (positions y nu))"

text \<open>The gradient of a differentiable argument: slot \<open>j\<close> is the sum of the terms of the
  positions that map to \<open>j\<close>, multiplied by the total product.\<close>

definition y_gradient :: "arith \<Rightarrow> arg \<Rightarrow> arg \<Rightarrow> dbl list" where
  "y_gradient ops y nu =
     map (\<lambda>j. fmul ops
                (running_sum ops (map (y_term ops y nu) (slot_positions (length_arg y) j y nu)))
                (total_P ops y nu))
       [0..<length_arg y]"

definition nu_gradient :: "arith \<Rightarrow> arg \<Rightarrow> arg \<Rightarrow> dbl list" where
  "nu_gradient ops y nu =
     map (\<lambda>j. fmul ops
                (running_sum ops
                   (map (nu_term ops y nu (precompute_gamma ops nu) (precompute_digamma ops nu))
                      (slot_positions (length_arg nu) j y nu)))
                (total_P ops y nu))
       [0..<length_arg nu]"

text \<open>The value channel of a call: \<open>None\<close> when the call raises.\<close>

definition value_channel :: "error + result \<Rightarrow> dbl option" where
  "value_channel r = (case r of Inl e \<Rightarrow> None | Inr res \<Rightarrow> Some (val res))"

definition grad_y_channel :: "error + result \<Rightarrow> dbl list option" where
  "grad_y_channel r = (case r of Inl e \<Rightarrow> None | Inr res \<Rightarrow> grad_y res)"

definition grad_nu_channel :: "error + result \<Rightarrow> dbl list option" where
  "grad_nu_channel r = (case r of Inl e \<Rightarrow> None | Inr res \<Rightarrow> grad_nu res)"

text \<open>Two sequences of different lengths, neither of length 1 (a single value has
  length 1).\<close>

definition size_mismatch :: "arg \<Rightarrow> arg \<Rightarrow> bool" where
  "size_mismatch y nu =
     (length_arg y \<noteq> length_arg nu \<and> length_arg y \<noteq> 1 \<and> length_arg nu \<noteq> 1)"

text \<open>What one broadcast position is said to contribute: the factor 1 and nothing to the
  gradients where \<open>y(n)\<close> is \<open>+\<infinity>\<close>, the factor \<open>Q\<close> and the terms of lines 112-120
  elsewhere.\<close>

definition factor_at :: "arith \<Rightarrow> arg \<Rightarrow> arg \<Rightarrow> nat \<Rightarrow> dbl" where
  "factor_at ops y nu n = (if view y n = PInf then Fin 1 else Pn_at ops y nu n)"

definition y_share :: "arith \<Rightarrow> arg \<Rightarrow> arg \<Rightarrow> nat \<Rightarrow> dbl" where
  "y_share ops y nu n = (if view y n = PInf then Fin 0 else y_term ops y nu n)"

definition nu_share :: "arith \<Rightarrow> arg \<Rightarrow> arg \<Rightarrow> nat \<Rightarrow> dbl" where
  "nu_share ops y nu n =
     (if view y n = PInf then Fin 0
      else nu_term ops y nu (precompute_gamma ops nu) (precompute_digamma ops nu) n)"

text \<open>All broadcast positions that map to element \<open>j\<close> of an argument of length \<open>len\<close>.\<close>

definition positions_of_slot :: "nat \<Rightarrow> nat \<Rightarrow> arg \<Rightarrow> arg \<Rightarrow> nat list" where
  "positions_of_slot len j y nu = filter (\<lambda>n. slot_of len n = j) [0..<max_size y nu]"

text \<open>The product of two value channels.\<close>

definition channel_product :: "arith \<Rightarrow> dbl option \<Rightarrow> dbl option \<Rightarrow> dbl option" where
  "channel_product ops a b =
     (case a of None \<Rightarrow> None
      | Some p \<Rightarrow> (case b of None \<Rightarrow> None | Some q \<Rightarrow> Some (fmul ops p q)))"

text \<open>For a single \<open>nu\<close> and one variate \<open>y\<^sub>n\<close>: the factor \<open>Pn = Q(nu/2, (1/y\<^sub>n)/2)\<close> and the
  quantity \<open>0.5 * grad_Q(nu/2, (1/y\<^sub>n)/2, \<Gamma>(nu/2), \<psi>(nu/2)) / Pn\<close>.\<close>

definition Q_factor :: "arith \<Rightarrow> dbl \<Rightarrow> dbl \<Rightarrow> dbl" where
  "Q_factor ops nu_dbl y_dbl =
     gamma_q ops (fmul ops (Fin (1/2)) nu_dbl)
       (fmul ops (Fin (1/2)) (fdiv ops (Fin 1) y_dbl))"

definition grad_Q_quantity :: "arith \<Rightarrow> dbl \<Rightarrow> dbl \<Rightarrow> dbl" where
  "grad_Q_quantity ops nu_dbl y_dbl =
     fdiv ops
       (fmul ops (Fin (1/2))
          (grad_reg_inc_gamma ops
             (fmul ops (Fin (1/2)) nu_dbl)
             (fmul ops (Fin (1/2)) (fdiv ops (Fin 1) y_dbl))
             (tgamma ops (fmul ops (Fin (1/2)) nu_dbl))
             (digamma ops (fmul ops (Fin (1/2)) nu_dbl))))
       (Q_factor ops nu_dbl y_dbl)"

text \<open>For one \<open>nu(n)\<close> and one variate \<open>y(n)\<close>, with \<open>y_inv = 1/y(n)\<close>: the quantity
  \<open>0.5 * y_inv\<^sup>2 * exp(-0.5*y_inv) * (0.5*y_inv)^(nu(n)/2 - 1) / \<Gamma>(nu(n)/2) / Pn\<close>, the
  operations taken from left to right and the square as \<open>y_inv * y_inv\<close>.\<close>

definition y_quantity :: "arith \<Rightarrow> dbl \<Rightarrow> dbl \<Rightarrow> dbl" where
  "y_quantity ops nu_dbl y_dbl =
     fdiv ops
       (fdiv ops
          (fmul ops
             (fmul ops
                (fmul ops (fmul ops (Fin (1/2)) (fdiv ops (Fin 1) y_dbl))
                   (fdiv ops (Fin 1) y_dbl))
                (fexp ops (fmul ops (Fin (- (1/2))) (fdiv ops (Fin 1) y_dbl))))
             (fpow ops (fmul ops (Fin (1/2)) (fdiv ops (Fin 1) y_dbl))
                (fsub ops (fmul ops (Fin (1/2)) nu_dbl) (Fin 1))))
          (tgamma ops (fmul ops (Fin (1/2)) nu_dbl)))
       (Q_factor ops nu_dbl y_dbl)"

section \<open>A sample collaborator: exact arithmetic\<close>

text \<open>
  One supply of the external arithmetic, used to run the function on concrete inputs:
  unrounded arithmetic on the finite values with the usual conventions for infinities and
  not-a-number, \<open>\<Gamma>\<close> and \<open>Q\<close> by their closed forms at positive integers
  (\<open>\<Gamma>(k) = (k-1)!\<close>, \<open>Q(k, x) = e\<^sup>-\<^sup>x \<Sum>\<^bsub>j<k\<^esub> x\<^sup>j / j!\<close>; the runs below use them at
  integers only), and two stand-ins where
  no elementary closed form exists: \<open>ln a - 1/(2a)\<close> for \<open>\<psi>(a)\<close> and the forward
  difference \<open>Q(a+1, x) - Q(a, x) = e\<^sup>-\<^sup>x x\<^sup>a / (a \<Gamma>(a))\<close> for the derivative of \<open>Q\<close> in \<open>a\<close>.
\<close>

fun mul_exact :: "dbl \<Rightarrow> dbl \<Rightarrow> dbl" where
  "mul_exact NaN b = NaN"
| "mul_exact a NaN = NaN"
| "mul_exact (Fin a) (Fin b) = Fin (a * b)"
| "mul_exact (Fin a) PInf = (if a = 0 then NaN else if 0 < a then PInf else NInf)"
| "mul_exact (Fin a) NInf = (if a = 0 then NaN else if 0 < a then NInf else PInf)"
| "mul_exact PInf (Fin b) = (if b = 0 then NaN else if 0 < b then PInf else NInf)"
| "mul_exact NInf (Fin b) = (if b = 0 then NaN else if 0 < b then NInf else PInf)"
| "mul_exact PInf PInf = PInf"
| "mul_exact PInf NInf = NInf"
| "mul_exact NInf PInf = NInf"
| "mul_exact NInf NInf = PInf"

fun div_exact :: "dbl \<Rightarrow> dbl \<Rightarrow> dbl" where
  "div_exact NaN b = NaN"
| "div_exact a NaN = NaN"
| "div_exact (Fin a) (Fin b) =
     (if b = 0 then (if a = 0 then NaN else if 0 < a then PInf else NInf) else Fin (a / b))"
| "div_exact (Fin a) PInf = Fin 0"
| "div_exact (Fin a) NInf = Fin 0"
| "div_exact PInf (Fin b) = (if 0 \<le> b then PInf else NInf)"
| "div_exact NInf (Fin b) = (if 0 \<le> b then NInf else PInf)"
| "div_exact a b = NaN"

fun add_exact :: "dbl \<Rightarrow> dbl \<Rightarrow> dbl" where
  "add_exact NaN b = NaN"
| "add_exact a NaN = NaN"
| "add_exact (Fin a) (Fin b) = Fin (a + b)"
| "add_exact (Fin a) b = b"
| "add_exact a (Fin b) = a"
| "add_exact PInf PInf = PInf"
| "add_exact NInf NInf = NInf"
| "add_exact a b = NaN"

fun neg_exact :: "dbl \<Rightarrow> dbl" where
  "neg_exact NaN = NaN"
| "neg_exact PInf = NInf"
| "neg_exact NInf = PInf"
| "neg_exact (Fin a) = Fin (- a)"

definition sub_exact :: "dbl \<Rightarrow> dbl \<Rightarrow> dbl" where
  "sub_exact a b = add_exact a (neg_exact b)"

fun exp_exact :: "dbl \<Rightarrow> dbl" where
  "exp_exact NaN = NaN"
| "exp_exact PInf = PInf"
| "exp_exact NInf = Fin 0"
| "exp_exact (Fin a) = Fin (exp a)"

text \<open>\<^verbatim>\<open>pow\<close> on a positive finite base; not-a-number elsewhere.\<close>

fun pow_exact :: "dbl \<Rightarrow> dbl \<Rightarrow> dbl" where
  "pow_exact (Fin a) (Fin b) = (if 0 < a then Fin (a powr b) else NaN)"
| "pow_exact a b = NaN"

fun tgamma_exact :: "dbl \<Rightarrow> dbl" where
  "tgamma_exact (Fin a) = (if 0 < a then Fin (fact (nat \<lfloor>a\<rfloor> - 1)) else NaN)"
| "tgamma_exact a = NaN"

fun gamma_q_exact :: "dbl \<Rightarrow> dbl \<Rightarrow> dbl" where
  "gamma_q_exact (Fin a) (Fin x) =
     (if 0 < a \<and> 0 \<le> x then Fin (exp (- x) * (\<Sum>j<nat \<lfloor>a\<rfloor>. x ^ j / fact j)) else NaN)"
| "gamma_q_exact (Fin a) PInf = (if 0 < a then Fin 0 else NaN)"
| "gamma_q_exact a x = NaN"

fun digamma_exact :: "dbl \<Rightarrow> dbl" where
  "digamma_exact (Fin a) = (if 0 < a then Fin (ln a - 1 / (2 * a)) else NaN)"
| "digamma_exact a = NaN"

fun grad_reg_inc_gamma_exact :: "dbl \<Rightarrow> dbl \<Rightarrow> dbl \<Rightarrow> dbl \<Rightarrow> dbl" where
  "grad_reg_inc_gamma_exact (Fin a) (Fin x) (Fin g) dg =
     (if 0 < a \<and> 0 < x \<and> 0 < g then Fin (exp (- x) * x powr a / (a * g)) else NaN)"
| "grad_reg_inc_gamma_exact a x g dg = NaN"

definition exact_ops :: arith where
  "exact_ops =
     \<lparr>fmul = mul_exact, fdiv = div_exact, fadd = add_exact, fsub = sub_exact,
      fexp = exp_exact, fpow = pow_exact, tgamma = tgamma_exact,
      digamma = digamma_exact, gamma_q = gamma_q_exact,
      grad_reg_inc_gamma = grad_reg_inc_gamma_exact\<rparr>"

section \<open>Loops as folds\<close>

lemma for_loop_foldl:
  "for_loop n N body st = foldl (\<lambda>s k. body k s) st [n..<N]"
proof (induction n N body st rule: for_loop.induct)
  case (1 n N body st)
  show ?case
  proof (cases "n < N")
    case True
    with "1" show ?thesis
      by (subst for_loop.simps) (simp add: upt_rec)
  next
    case False
    then show ?thesis
      by (subst for_loop.simps) simp
  qed
qed

section \<open>Reads stay in range\<close>

text \<open>Once the size check has passed, every read \<^verbatim>\<open>y_vec[n]\<close>, \<^verbatim>\<open>nu_vec[n]\<close> of the main
  loop, and with it every access to a slot or a cache entry, is within the argument.\<close>

lemma length_elems: "length (elems a) = length_arg a"
  by (cases a) simp_all

lemma view_in_range:
  assumes "consistent_sizes y nu" and "\<not> size_zero y nu" and "n < max_size y nu"
  shows "slot_of (length_arg y) n < length (elems y)"
    and "slot_of (length_arg nu) n < length (elems nu)"
  using assms
  by (auto simp: consistent_sizes_def size_zero_def slot_of_def length_elems)

section \<open>The main loop and the scaling loops, position by position\<close>

lemma run_P_loop_body:
  "run_P (loop_body ops dy dnu y nu gv dv n st) =
     (if view y n = PInf then run_P st else fmul ops (run_P st) (Pn_at ops y nu n))"
  by (simp add: loop_body_def Let_def)

lemma edge1_loop_body:
  "edge1_partials (loop_body ops dy dnu y nu gv dv n st) =
     (if view y n \<noteq> PInf \<and> dy
      then add_at ops (edge1_partials st) (slot_of (length_arg y) n) (y_term ops y nu n)
      else edge1_partials st)"
  by (simp add: loop_body_def Let_def)

lemma edge2_loop_body:
  "edge2_partials (loop_body ops dy dnu y nu gv dv n st) =
     (if view y n \<noteq> PInf \<and> dnu
      then add_at ops (edge2_partials st) (slot_of (length_arg nu) n)
             (nu_term ops y nu gv dv n)
      else edge2_partials st)"
  by (simp add: loop_body_def Let_def)

lemma length_add_at: "length (add_at ops xs i c) = length xs"
  by (simp add: add_at_def)

lemma nth_add_at:
  "j < length xs \<Longrightarrow>
   add_at ops xs i c ! j = (if i = j then fadd ops (xs ! j) c else xs ! j)"
  by (simp add: add_at_def nth_list_update)

lemma run_P_foldl:
  "run_P (foldl (\<lambda>s k. loop_body ops dy dnu y nu gv dv k s) st ns) =
   foldl (fmul ops) (run_P st) (map (Pn_at ops y nu) (filter (\<lambda>n. view y n \<noteq> PInf) ns))"
  by (induction ns arbitrary: st) (simp_all add: run_P_loop_body)

lemma length_edge1_foldl:
  "length (edge1_partials (foldl (\<lambda>s k. loop_body ops dy dnu y nu gv dv k s) st ns)) =
   length (edge1_partials st)"
  by (induction ns arbitrary: st) (simp_all add: edge1_loop_body length_add_at)

lemma length_edge2_foldl:
  "length (edge2_partials (foldl (\<lambda>s k. loop_body ops dy dnu y nu gv dv k s) st ns)) =
   length (edge2_partials st)"
  by (induction ns arbitrary: st) (simp_all add: edge2_loop_body length_add_at)

lemma edge1_foldl:
  "j < length (edge1_partials st) \<Longrightarrow>
   edge1_partials (foldl (\<lambda>s k. loop_body ops True dnu y nu gv dv k s) st ns) ! j =
   foldl (fadd ops) (edge1_partials st ! j)
     (map (y_term ops y nu)
        (filter (\<lambda>n. view y n \<noteq> PInf \<and> slot_of (length_arg y) n = j) ns))"
proof (induction ns arbitrary: st)
  case Nil
  then show ?case by simp
next
  case (Cons n ns)
  let ?st = "loop_body ops True dnu y nu gv dv n st"
  have len: "j < length (edge1_partials ?st)"
    using Cons.prems by (simp add: edge1_loop_body length_add_at)
  show ?case
    using Cons.IH [OF len] Cons.prems
    by (simp add: edge1_loop_body nth_add_at)
qed

lemma edge2_foldl:
  "j < length (edge2_partials st) \<Longrightarrow>
   edge2_partials (foldl (\<lambda>s k. loop_body ops dy True y nu gv dv k s) st ns) ! j =
   foldl (fadd ops) (edge2_partials st ! j)
     (map (nu_term ops y nu gv dv)
        (filter (\<lambda>n. view y n \<noteq> PInf \<and> slot_of (length_arg nu) n = j) ns))"
proof (induction ns arbitrary: st)
  case Nil
  then show ?case by simp
next
  case (Cons n ns)
  let ?st = "loop_body ops dy True y nu gv dv n st"
  have len: "j < length (edge2_partials ?st)"
    using Cons.prems by (simp add: edge2_loop_body length_add_at)
  show ?case
    using Cons.IH [OF len] Cons.prems
    by (simp add: edge2_loop_body nth_add_at)
qed

lemma scale_foldl:
  "n \<le> length xs \<Longrightarrow>
   foldl (\<lambda>s k. scale_at ops p k s) xs [0..<n] =
   map (\<lambda>g. fmul ops g p) (take n xs) @ drop n xs"
proof (induction n)
  case 0
  then show ?case by simp
next
  case (Suc n)
  then have n: "n < length xs" by simp
  have "foldl (\<lambda>s k. scale_at ops p k s) xs [0..<Suc n] =
        scale_at ops p n (map (\<lambda>g. fmul ops g p) (take n xs) @ drop n xs)"
    using Suc by simp
  also have "\<dots> = map (\<lambda>g. fmul ops g p) (take (Suc n) xs) @ drop (Suc n) xs"
    using n
    by (simp add: scale_at_def list_update_append nth_append take_Suc_conv_app_nth
        Cons_nth_drop_Suc [symmetric])
  finally show ?case .
qed

lemma scale_loop:
  "for_loop 0 (length xs) (scale_at ops p) xs = map (\<lambda>g. fmul ops g p) xs"
  by (simp add: for_loop_foldl scale_foldl)


lemma valid_checks:
  assumes "valid_input y nu"
  shows "check_positive_finite nu = None" "check_not_nan y = None"
    "check_nonnegative y = None" "check_consistent_sizes y nu = None"
  using assms
  by (simp_all add: valid_input_def check_positive_finite_def check_not_nan_def
      check_nonnegative_def check_consistent_sizes_def)

lemma map_via_nth:
  "length xs = n \<Longrightarrow> (\<And>j. j < n \<Longrightarrow> f (xs ! j) = g j) \<Longrightarrow> map f xs = map g [0..<n]"
  by (rule nth_equalityI) simp_all

lemma loop_run_P:
  "run_P (for_loop 0 (max_size y nu) (loop_body ops dy dnu y nu gv dv) (init_accum dy dnu y nu))
   = total_P ops y nu"
  by (simp add: for_loop_foldl run_P_foldl total_P_def running_product_def positions_def
      init_accum_def)

lemma loop_edge1:
  "map (\<lambda>g. fmul ops g p)
     (edge1_partials (for_loop 0 (max_size y nu) (loop_body ops True dnu y nu gv dv)
        (init_accum True dnu y nu))) =
   map (\<lambda>j. fmul ops
              (running_sum ops (map (y_term ops y nu) (slot_positions (length_arg y) j y nu))) p)
     [0..<length_arg y]"
proof (rule map_via_nth)
  show "length (edge1_partials (for_loop 0 (max_size y nu) (loop_body ops True dnu y nu gv dv)
        (init_accum True dnu y nu))) = length_arg y"
    by (simp add: for_loop_foldl length_edge1_foldl init_accum_def)
next
  fix j assume j: "j < length_arg y"
  then have "j < length (edge1_partials (init_accum True dnu y nu))"
    by (simp add: init_accum_def)
  from edge1_foldl [OF this] j
  show "fmul ops (edge1_partials (for_loop 0 (max_size y nu)
          (loop_body ops True dnu y nu gv dv) (init_accum True dnu y nu)) ! j) p =
        fmul ops (running_sum ops (map (y_term ops y nu)
          (slot_positions (length_arg y) j y nu))) p"
    by (simp add: for_loop_foldl running_sum_def slot_positions_def positions_def
        init_accum_def conj_commute)
qed

lemma loop_edge2:
  "map (\<lambda>g. fmul ops g p)
     (edge2_partials (for_loop 0 (max_size y nu) (loop_body ops dy True y nu gv dv)
        (init_accum dy True y nu))) =
   map (\<lambda>j. fmul ops
              (running_sum ops (map (nu_term ops y nu gv dv)
                 (slot_positions (length_arg nu) j y nu))) p)
     [0..<length_arg nu]"
proof (rule map_via_nth)
  show "length (edge2_partials (for_loop 0 (max_size y nu) (loop_body ops dy True y nu gv dv)
        (init_accum dy True y nu))) = length_arg nu"
    by (simp add: for_loop_foldl length_edge2_foldl init_accum_def)
next
  fix j assume j: "j < length_arg nu"
  then have "j < length (edge2_partials (init_accum dy True y nu))"
    by (simp add: init_accum_def)
  from edge2_foldl [OF this] j
  show "fmul ops (edge2_partials (for_loop 0 (max_size y nu)
          (loop_body ops dy True y nu gv dv) (init_accum dy True y nu)) ! j) p =
        fmul ops (running_sum ops (map (nu_term ops y nu gv dv)
          (slot_positions (length_arg nu) j y nu))) p"
    by (simp add: for_loop_foldl running_sum_def slot_positions_def positions_def
        init_accum_def conj_commute)
qed

lemma scale_edge1:
  "for_loop 0 (length_arg y) (scale_at ops p)
     (edge1_partials (for_loop 0 N (loop_body ops True dnu y nu gv dv) (init_accum True dnu y nu)))
   = map (\<lambda>g. fmul ops g p)
     (edge1_partials (for_loop 0 N (loop_body ops True dnu y nu gv dv) (init_accum True dnu y nu)))"
proof -
  have "length (edge1_partials (for_loop 0 N (loop_body ops True dnu y nu gv dv)
          (init_accum True dnu y nu))) = length_arg y"
    by (simp add: for_loop_foldl length_edge1_foldl init_accum_def)
  then show ?thesis
    using scale_loop by metis
qed

lemma scale_edge2:
  "for_loop 0 (length_arg nu) (scale_at ops p)
     (edge2_partials (for_loop 0 N (loop_body ops dy True y nu gv dv) (init_accum dy True y nu)))
   = map (\<lambda>g. fmul ops g p)
     (edge2_partials (for_loop 0 N (loop_body ops dy True y nu gv dv) (init_accum dy True y nu)))"
proof -
  have "length (edge2_partials (for_loop 0 N (loop_body ops dy True y nu gv dv)
          (init_accum dy True y nu))) = length_arg nu"
    by (simp add: for_loop_foldl length_edge2_foldl init_accum_def)
  then show ?thesis
    using scale_loop by metis
qed

lemma cdf_result:
  assumes "valid_input y nu" and "\<not> size_zero y nu" and "\<not> zero_scan (elems y)"
  shows "inv_chi_square_cdf ops dy dnu y nu =
           Inr \<lparr>val = total_P ops y nu,
                grad_y = (if dy then Some (y_gradient ops y nu) else None),
                grad_nu = (if dnu then Some (nu_gradient ops y nu) else None)\<rparr>"
proof (cases dy; cases dnu)
  assume "dy" "dnu"
  then show ?thesis
    using assms(2,3)
    by (simp add: inv_chi_square_cdf_def valid_checks [OF assms(1)] Let_def build_def
        loop_run_P scale_edge1 scale_edge2 loop_edge1 loop_edge2 y_gradient_def
        nu_gradient_def)
next
  assume "dy" "\<not> dnu"
  then show ?thesis
    using assms(2,3)
    by (simp add: inv_chi_square_cdf_def valid_checks [OF assms(1)] Let_def build_def
        loop_run_P scale_edge1 loop_edge1 y_gradient_def)
next
  assume "\<not> dy" "dnu"
  then show ?thesis
    using assms(2,3)
    by (simp add: inv_chi_square_cdf_def valid_checks [OF assms(1)] Let_def build_def
        loop_run_P scale_edge2 loop_edge2 nu_gradient_def)
next
  assume "\<not> dy" "\<not> dnu"
  then show ?thesis
    using assms(2,3)
    by (simp add: inv_chi_square_cdf_def valid_checks [OF assms(1)] Let_def build_def
        loop_run_P)
qed

section \<open>Facts about the sample arithmetic\<close>

lemma exact_simps [simp]:
  "fmul exact_ops = mul_exact" "fdiv exact_ops = div_exact" "fadd exact_ops = add_exact"
  "fsub exact_ops = sub_exact" "fexp exact_ops = exp_exact" "fpow exact_ops = pow_exact"
  "tgamma exact_ops = tgamma_exact" "digamma exact_ops = digamma_exact"
  "gamma_q exact_ops = gamma_q_exact" "grad_reg_inc_gamma exact_ops = grad_reg_inc_gamma_exact"
  by (simp_all add: exact_ops_def)

lemma mul_exact_one_right: "mul_exact x (Fin 1) = x"
  by (cases x) simp_all
lemma mul_exact_one_left: "mul_exact (Fin 1) x = x"
  by (cases x) simp_all
lemma add_exact_zero_right: "add_exact x (Fin 0) = x"
  by (cases x) simp_all

section \<open>Validation and the short-circuits\<close>

lemma zero_scan_iff: "zero_scan vs \<longleftrightarrow> Fin 0 \<in> set vs"
  by (induction vs) auto

lemma valid_nonempty:
  "valid_input y nu \<Longrightarrow> length_arg y \<noteq> 0 \<Longrightarrow> \<not> size_zero y nu"
  by (auto simp: valid_input_def consistent_sizes_def size_zero_def max_size_def)

lemma elems_nonempty: "v \<in> set (elems y) \<Longrightarrow> length_arg y \<noteq> 0"
  by (cases y) auto

lemma domain_violation_checks:
  "domain_violation y nu \<longleftrightarrow>
     check_positive_finite nu = Some DomainError \<or> check_not_nan y = Some DomainError \<or>
     check_nonnegative y = Some DomainError"
proof -
  have "\<not> is_nonnegative v \<longleftrightarrow> is_nan v \<or> is_negative v" for v
    by (cases v) (auto simp: is_nonnegative_def is_nan_def is_negative_def)
  then have "list_ex (\<lambda>v. is_nan v \<or> is_negative v) vs \<longleftrightarrow>
        list_ex is_nan vs \<or> \<not> list_all is_nonnegative vs" for vs
    by (induction vs) auto
  then show ?thesis
    by (auto simp: domain_violation_def check_positive_finite_def check_not_nan_def
        check_nonnegative_def list_all_iff list_ex_iff)
qed

lemma domain_error_first:
  "\<not> size_zero y nu \<Longrightarrow> domain_violation y nu \<Longrightarrow>
   inv_chi_square_cdf ops dy dnu y nu = Inl DomainError"
  by (auto simp: inv_chi_square_cdf_def domain_violation_checks check_positive_finite_def
      check_not_nan_def check_nonnegative_def split: option.splits if_splits)

lemma size_mismatch_iff:
  "\<not> size_zero y nu \<Longrightarrow> size_mismatch y nu \<longleftrightarrow> \<not> consistent_sizes y nu"
  by (auto simp: size_mismatch_def consistent_sizes_def size_zero_def max_size_def max_def)

lemma size_error_second:
  "\<not> size_zero y nu \<Longrightarrow> \<not> domain_violation y nu \<Longrightarrow> \<not> consistent_sizes y nu \<Longrightarrow>
   inv_chi_square_cdf ops dy dnu y nu = Inl InvalidArgumentError"
  by (auto simp: inv_chi_square_cdf_def domain_violation_checks check_positive_finite_def
      check_not_nan_def check_nonnegative_def check_consistent_sizes_def
      split: option.splits if_splits)

text \<open>
  Claim C6. For every input in which \<open>y\<close> or \<open>nu\<close> is an empty sequence, the call returns
  exactly 1.0 with no gradient slots.
\<close>

theorem empty_input_returns_one:
  assumes "length_arg y = 0 \<or> length_arg nu = 0"
  shows "inv_chi_square_cdf ops dy dnu y nu =
           Inr \<lparr>val = Fin 1, grad_y = None, grad_nu = None\<rparr>"
  using assms by (simp add: inv_chi_square_cdf_def size_zero_def)

theorem empty_input_returns_one_witness:
  "(length_arg (Seq []) = 0 \<or> length_arg (Seq [Fin 3, Fin 4]) = 0) \<and>
   inv_chi_square_cdf exact_ops True True (Seq []) (Seq [Fin 3, Fin 4]) =
     Inr \<lparr>val = Fin 1, grad_y = None, grad_nu = None\<rparr>"
proof -
  have h: "length_arg (Seq []) = 0 \<or> length_arg (Seq [Fin 3, Fin 4]) = 0"
    by simp
  from empty_input_returns_one [OF h] h show ?thesis
    by blast
qed

text \<open>
  Claim C9. If either argument has length 0 the call returns 1.0 and raises neither
  DomainError nor InvalidArgumentError, whatever the elements and the length of the other
  argument are: no check is made before the short-circuit. (The statement puts no
  condition on the elements; the inputs below fail every check.)
\<close>

theorem empty_input_skips_validation:
  assumes "size_zero y nu"
  shows "inv_chi_square_cdf ops dy dnu y nu =
           Inr \<lparr>val = Fin 1, grad_y = None, grad_nu = None\<rparr> \<and>
         inv_chi_square_cdf ops dy dnu y nu \<noteq> Inl DomainError \<and>
         inv_chi_square_cdf ops dy dnu y nu \<noteq> Inl InvalidArgumentError"
  using assms by (simp add: inv_chi_square_cdf_def)

theorem empty_input_skips_validation_witness:
  "size_zero (Seq []) (Seq [Fin (- 1), NaN, PInf]) \<and>
   domain_violation (Seq []) (Seq [Fin (- 1), NaN, PInf]) \<and>
   size_mismatch (Seq []) (Seq [Fin (- 1), NaN, PInf]) \<and>
   inv_chi_square_cdf exact_ops True True (Seq []) (Seq [Fin (- 1), NaN, PInf]) =
     Inr \<lparr>val = Fin 1, grad_y = None, grad_nu = None\<rparr> \<and>
   size_zero (Seq [NaN, NInf]) (Seq []) \<and>
   domain_violation (Seq [NaN, NInf]) (Seq []) \<and>
   inv_chi_square_cdf exact_ops True True (Seq [NaN, NInf]) (Seq []) =
     Inr \<lparr>val = Fin 1, grad_y = None, grad_nu = None\<rparr>"
proof -
  have h1: "size_zero (Seq []) (Seq [Fin (- 1), NaN, PInf])"
    and h2: "size_zero (Seq [NaN, NInf]) (Seq [])"
    by (simp_all add: size_zero_def)
  have d: "domain_violation (Seq []) (Seq [Fin (- 1), NaN, PInf])"
    "size_mismatch (Seq []) (Seq [Fin (- 1), NaN, PInf])"
    "domain_violation (Seq [NaN, NInf]) (Seq [])"
    by (simp_all add: domain_violation_def size_mismatch_def is_positive_finite_def
        is_nan_def)
  from empty_input_skips_validation [OF h1, of exact_ops True True]
    empty_input_skips_validation [OF h2, of exact_ops True True] h1 h2 d
  show ?thesis
    by blast
qed

text \<open>
  Claim C10. For every non-empty input, if \<open>nu\<close> has a non-positive or non-finite element
  or \<open>y\<close> has a NaN or negative element, the call raises DomainError, also when \<open>y\<close> holds
  an element equal to 0: it does not return the zero result of the zero-variate
  short-circuit. For instance \<open>cdf(0, -1)\<close> raises.
\<close>

theorem validation_precedes_zero_scan:
  assumes "\<not> size_zero y nu" and "domain_violation y nu"
  shows "inv_chi_square_cdf ops dy dnu y nu = Inl DomainError \<and>
         inv_chi_square_cdf ops dy dnu y nu \<noteq>
           Inr (build dy dnu (init_accum dy dnu y nu) (Fin 0))"
  using domain_error_first [OF assms] by simp

theorem validation_precedes_zero_scan_witness:
  "\<not> size_zero (Scalar (Fin 0)) (Scalar (Fin (- 1))) \<and>
   domain_violation (Scalar (Fin 0)) (Scalar (Fin (- 1))) \<and>
   Fin 0 \<in> set (elems (Scalar (Fin 0))) \<and>
   inv_chi_square_cdf exact_ops True True (Scalar (Fin 0)) (Scalar (Fin (- 1))) =
     Inl DomainError"
proof -
  have h1: "\<not> size_zero (Scalar (Fin 0)) (Scalar (Fin (- 1)))"
    by (simp add: size_zero_def)
  have h2: "domain_violation (Scalar (Fin 0)) (Scalar (Fin (- 1)))"
    by (simp add: domain_violation_def is_positive_finite_def)
  from validation_precedes_zero_scan [OF h1 h2, of exact_ops True True] h1 h2
  show ?thesis
    by simp
qed

text \<open>
  Claim C7, as amended. For every input in which neither argument is empty: the call
  raises DomainError, and returns no result, whenever \<open>nu\<close> has a non-positive or non-finite
  element or \<open>y\<close> has a NaN or negative element; and it raises InvalidArgumentError, and
  returns no result, whenever there is no such element and \<open>y\<close> and \<open>nu\<close> are sequences of
  different lengths, neither of length 1.
\<close>

theorem validation_errors:
  assumes "\<not> size_zero y nu"
  shows "(domain_violation y nu \<longrightarrow>
            inv_chi_square_cdf ops dy dnu y nu = Inl DomainError) \<and>
         (\<not> domain_violation y nu \<and> size_mismatch y nu \<longrightarrow>
            inv_chi_square_cdf ops dy dnu y nu = Inl InvalidArgumentError)"
  using assms domain_error_first size_error_second size_mismatch_iff by blast

theorem validation_errors_witness:
  "\<not> size_zero (Scalar (Fin (- 1))) (Scalar (Fin 5)) \<and>
   domain_violation (Scalar (Fin (- 1))) (Scalar (Fin 5)) \<and>
   inv_chi_square_cdf exact_ops True True (Scalar (Fin (- 1))) (Scalar (Fin 5)) =
     Inl DomainError \<and>
   \<not> size_zero (Scalar (Fin 1)) (Scalar (Fin 0)) \<and>
   domain_violation (Scalar (Fin 1)) (Scalar (Fin 0)) \<and>
   inv_chi_square_cdf exact_ops True True (Scalar (Fin 1)) (Scalar (Fin 0)) =
     Inl DomainError \<and>
   \<not> size_zero (Seq [Fin 1, Fin 2, Fin 3]) (Seq [Fin 1, Fin 2]) \<and>
   \<not> domain_violation (Seq [Fin 1, Fin 2, Fin 3]) (Seq [Fin 1, Fin 2]) \<and>
   size_mismatch (Seq [Fin 1, Fin 2, Fin 3]) (Seq [Fin 1, Fin 2]) \<and>
   inv_chi_square_cdf exact_ops True True (Seq [Fin 1, Fin 2, Fin 3]) (Seq [Fin 1, Fin 2]) =
     Inl InvalidArgumentError"
proof -
  have a: "\<not> size_zero (Scalar (Fin (- 1))) (Scalar (Fin 5))"
    "domain_violation (Scalar (Fin (- 1))) (Scalar (Fin 5))"
    by (simp_all add: size_zero_def domain_violation_def is_nan_def is_negative_def)
  have b: "\<not> size_zero (Scalar (Fin 1)) (Scalar (Fin 0))"
    "domain_violation (Scalar (Fin 1)) (Scalar (Fin 0))"
    by (simp_all add: size_zero_def domain_violation_def is_positive_finite_def)
  have c: "\<not> size_zero (Seq [Fin 1, Fin 2, Fin 3]) (Seq [Fin 1, Fin 2])"
    "\<not> domain_violation (Seq [Fin 1, Fin 2, Fin 3]) (Seq [Fin 1, Fin 2])"
    "size_mismatch (Seq [Fin 1, Fin 2, Fin 3]) (Seq [Fin 1, Fin 2])"
    by (simp_all add: size_zero_def domain_violation_def is_positive_finite_def
        is_nan_def is_negative_def size_mismatch_def)
  from validation_errors [OF a(1), of exact_ops True True]
    validation_errors [OF b(1), of exact_ops True True]
    validation_errors [OF c(1), of exact_ops True True] a b c
  show ?thesis
    by blast
qed

text \<open>
  Claim C7 as stated, for every input, fails: with an empty \<open>y\<close> the call returns 1.0 although
  \<open>nu\<close> holds \<open>-1\<close>, and although the lengths 0 and 2 differ and neither is 1; and
  \<open>cdf([1,2,3], [-1,2])\<close>, whose sizes mismatch, raises DomainError, since the domain checks
  come first.
\<close>

theorem validation_errors_counterexample:
  "domain_violation (Seq []) (Seq [Fin (- 1)]) \<and>
   inv_chi_square_cdf exact_ops False False (Seq []) (Seq [Fin (- 1)]) =
     Inr \<lparr>val = Fin 1, grad_y = None, grad_nu = None\<rparr> \<and>
   size_mismatch (Seq []) (Seq [Fin 1, Fin 2]) \<and>
   inv_chi_square_cdf exact_ops False False (Seq []) (Seq [Fin 1, Fin 2]) =
     Inr \<lparr>val = Fin 1, grad_y = None, grad_nu = None\<rparr> \<and>
   size_mismatch (Seq [Fin 1, Fin 2, Fin 3]) (Seq [Fin (- 1), Fin 2]) \<and>
   inv_chi_square_cdf exact_ops False False (Seq [Fin 1, Fin 2, Fin 3]) (Seq [Fin (- 1), Fin 2]) =
     Inl DomainError"
  by (simp add: inv_chi_square_cdf_def size_zero_def domain_violation_def size_mismatch_def
      is_positive_finite_def check_positive_finite_def)

text \<open>
  Claim C4. For every valid input in which some element of \<open>y\<close> (by \<open>y\<close>'s own index) is
  exactly 0, the call returns the value 0.0, and every requested gradient slot is zero:
  one slot per element of each differentiable argument, none for a constant one.
\<close>

theorem zero_variate_returns_zero:
  assumes "valid_input y nu" and "Fin 0 \<in> set (elems y)"
  shows "inv_chi_square_cdf ops dy dnu y nu =
           Inr \<lparr>val = Fin 0,
                grad_y = (if dy then Some (replicate (length_arg y) (Fin 0)) else None),
                grad_nu = (if dnu then Some (replicate (length_arg nu) (Fin 0)) else None)\<rparr>"
proof -
  have "\<not> size_zero y nu"
    using assms valid_nonempty elems_nonempty by blast
  moreover have "zero_scan (elems y)"
    using assms(2) by (simp add: zero_scan_iff)
  ultimately show ?thesis
    by (simp add: inv_chi_square_cdf_def valid_checks [OF assms(1)] build_def init_accum_def)
qed

theorem zero_variate_returns_zero_witness:
  "valid_input (Seq [Fin 1, Fin 0]) (Scalar (Fin 3)) \<and>
   Fin 0 \<in> set (elems (Seq [Fin 1, Fin 0])) \<and>
   inv_chi_square_cdf exact_ops True True (Seq [Fin 1, Fin 0]) (Scalar (Fin 3)) =
     Inr \<lparr>val = Fin 0, grad_y = Some [Fin 0, Fin 0], grad_nu = Some [Fin 0]\<rparr>"
proof -
  have h1: "valid_input (Seq [Fin 1, Fin 0]) (Scalar (Fin 3))"
    by (simp add: valid_input_def is_positive_finite_def is_nan_def is_nonnegative_def
        consistent_sizes_def max_size_def)
  have h2: "Fin 0 \<in> set (elems (Seq [Fin 1, Fin 0]))"
    by simp
  from zero_variate_returns_zero [OF h1 h2, of exact_ops True True] h1 h2
  show ?thesis
    by (simp add: numeral_2_eq_2)
qed

section \<open>The returned value\<close>

text \<open>
  Claim C1. For every pair of valid non-empty inputs with no element of \<open>y\<close> equal to 0
  (every element of \<open>nu\<close> positive and finite, every element of \<open>y\<close> non-negative and not
  NaN, lengths broadcast-compatible), the call returns, and the returned value is the
  product, over the broadcast positions \<open>n\<close> in \<open>[0, N)\<close> with \<open>y(n)\<close> not \<open>+\<infinity>\<close>, of
  \<open>Q(nu(n)/2, (1/y(n))/2)\<close>, where \<open>N = max(len(y), len(nu))\<close>. The halves are taken as the
  code takes them, by multiplying with 0.5; the product is the running product that
  starts at 1.0.
\<close>

theorem value_is_product_of_factors:
  assumes "valid_input y nu" and "\<not> size_zero y nu" and "Fin 0 \<notin> set (elems y)"
  shows "value_channel (inv_chi_square_cdf ops dy dnu y nu) =
           Some (running_product ops
             (map (\<lambda>n. gamma_q ops (fmul ops (Fin (1/2)) (view nu n))
                                  (fmul ops (Fin (1/2)) (fdiv ops (Fin 1) (view y n))))
                (filter (\<lambda>n. view y n \<noteq> PInf)
                   [0..<max (length_arg y) (length_arg nu)])))"
proof -
  have "\<not> zero_scan (elems y)"
    using assms(3) by (simp add: zero_scan_iff)
  from cdf_result [OF assms(1,2) this, of ops dy dnu] show ?thesis
    by (simp add: value_channel_def total_P_def positions_def max_size_def Pn_at_def
        y_inv_def cong: map_cong)
qed

theorem value_is_product_of_factors_witness:
  "valid_input (Seq [Fin 1, PInf, Fin 1]) (Scalar (Fin 2)) \<and>
   \<not> size_zero (Seq [Fin 1, PInf, Fin 1]) (Scalar (Fin 2)) \<and>
   Fin 0 \<notin> set (elems (Seq [Fin 1, PInf, Fin 1])) \<and>
   value_channel (inv_chi_square_cdf exact_ops True True (Seq [Fin 1, PInf, Fin 1])
     (Scalar (Fin 2))) = Some (Fin (exp (- (1/2)) * exp (- (1/2))))"
proof -
  have h1: "valid_input (Seq [Fin 1, PInf, Fin 1]) (Scalar (Fin 2))"
    by (simp add: valid_input_def is_positive_finite_def is_nan_def is_nonnegative_def
        consistent_sizes_def max_size_def)
  have h2: "\<not> size_zero (Seq [Fin 1, PInf, Fin 1]) (Scalar (Fin 2))"
    by (simp add: size_zero_def)
  have h3: "Fin 0 \<notin> set (elems (Seq [Fin 1, PInf, Fin 1]))"
    by simp
  from value_is_product_of_factors [OF h1 h2 h3, of exact_ops True True] h1 h2 h3
  show ?thesis
    by (simp add: running_product_def view_def slot_of_def upt_rec)
qed

section \<open>Positions at infinity\<close>

lemma skip_product:
  assumes "\<forall>x. fmul ops x (Fin 1) = x"
  shows "foldl (fmul ops) a (map (factor_at ops y nu) ns) =
         foldl (fmul ops) a (map (Pn_at ops y nu) (filter (\<lambda>n. view y n \<noteq> PInf) ns))"
  using assms by (induction ns arbitrary: a) (simp_all add: factor_at_def)

lemma skip_sum:
  assumes "\<forall>x. fadd ops x (Fin 0) = x"
  shows "foldl (fadd ops) a (map (\<lambda>n. if view y n = PInf then Fin 0 else f n) ns) =
         foldl (fadd ops) a (map f (filter (\<lambda>n. view y n \<noteq> PInf) ns))"
  using assms by (induction ns arbitrary: a) simp_all

lemma total_P_factors:
  assumes "\<forall>x. fmul ops x (Fin 1) = x"
  shows "running_product ops (map (factor_at ops y nu) [0..<max_size y nu]) = total_P ops y nu"
  by (simp add: running_product_def total_P_def positions_def skip_product [OF assms])

lemma y_slot_shares:
  assumes "\<forall>x. fadd ops x (Fin 0) = x"
  shows "running_sum ops (map (y_share ops y nu) (positions_of_slot len j y nu)) =
         running_sum ops (map (y_term ops y nu) (slot_positions len j y nu))"
proof -
  have "y_share ops y nu = (\<lambda>n. if view y n = PInf then Fin 0 else y_term ops y nu n)"
    by (rule ext) (simp add: y_share_def)
  then show ?thesis
    by (simp add: running_sum_def positions_of_slot_def slot_positions_def positions_def
        skip_sum [OF assms] conj_commute)
qed

lemma nu_slot_shares:
  assumes "\<forall>x. fadd ops x (Fin 0) = x"
  shows "running_sum ops (map (nu_share ops y nu) (positions_of_slot len j y nu)) =
         running_sum ops
           (map (nu_term ops y nu (precompute_gamma ops nu) (precompute_digamma ops nu))
              (slot_positions len j y nu))"
proof -
  have "nu_share ops y nu = (\<lambda>n. if view y n = PInf then Fin 0
          else nu_term ops y nu (precompute_gamma ops nu) (precompute_digamma ops nu) n)"
    by (rule ext) (simp add: nu_share_def)
  then show ?thesis
    by (simp add: running_sum_def positions_of_slot_def slot_positions_def positions_def
        skip_sum [OF assms] conj_commute)
qed

lemma positions_all_infinite: "positions (Scalar PInf) nu = []"
  by (simp add: positions_def view_def slot_of_def)

text \<open>
  Claim C5. For every valid non-empty input with no element of \<open>y\<close> equal to 0, each
  broadcast position \<open>n\<close> with \<open>y(n) = +\<infinity>\<close> contributes the factor exactly 1 to the returned
  product and adds nothing to any gradient accumulator: the loop body leaves \<open>P\<close> and both
  partials buffers as they are there, and, for an arithmetic with \<open>x * 1.0 = x\<close> and
  \<open>x + 0.0 = x\<close>, the result is the one obtained when every position contributes
  \<open>factor_at\<close>, \<open>y_share\<close> and \<open>nu_share\<close>. In particular, for a single \<open>y = +\<infinity>\<close> and any valid
  \<open>nu\<close> the returned value is exactly 1 and the requested gradients are zero (given
  \<open>0.0 * 1.0 = 0.0\<close>, the final scaling of the untouched slots).
\<close>

theorem infinite_variate_is_skipped:
  assumes "valid_input y nu" and "\<not> size_zero y nu" and "Fin 0 \<notin> set (elems y)"
  shows "(\<forall>n<max_size y nu. view y n = PInf \<longrightarrow>
            (\<forall>gamma_vec digamma_vec st.
               loop_body ops dy dnu y nu gamma_vec digamma_vec n st = st)) \<and>
         ((\<forall>x. fmul ops x (Fin 1) = x) \<and> (\<forall>x. fadd ops x (Fin 0) = x) \<longrightarrow>
            inv_chi_square_cdf ops dy dnu y nu =
              Inr \<lparr>val = running_product ops (map (factor_at ops y nu) [0..<max_size y nu]),
                   grad_y =
                     (if dy
                      then Some (map (\<lambda>j. fmul ops
                                   (running_sum ops (map (y_share ops y nu)
                                      (positions_of_slot (length_arg y) j y nu)))
                                   (running_product ops
                                      (map (factor_at ops y nu) [0..<max_size y nu])))
                                 [0..<length_arg y])
                      else None),
                   grad_nu =
                     (if dnu
                      then Some (map (\<lambda>j. fmul ops
                                   (running_sum ops (map (nu_share ops y nu)
                                      (positions_of_slot (length_arg nu) j y nu)))
                                   (running_product ops
                                      (map (factor_at ops y nu) [0..<max_size y nu])))
                                 [0..<length_arg nu])
                      else None)\<rparr>) \<and>
         (y = Scalar PInf \<and> fmul ops (Fin 0) (Fin 1) = Fin 0 \<longrightarrow>
            inv_chi_square_cdf ops dy dnu y nu =
              Inr \<lparr>val = Fin 1,
                   grad_y = (if dy then Some [Fin 0] else None),
                   grad_nu = (if dnu then Some (replicate (length_arg nu) (Fin 0)) else None)\<rparr>)"
proof -
  have z: "\<not> zero_scan (elems y)"
    using assms(3) by (simp add: zero_scan_iff)
  note res = cdf_result [OF assms(1,2) z, of ops dy dnu]
  have skip: "loop_body ops dy dnu y nu gamma_vec digamma_vec n st = st"
    if "view y n = PInf" for n gamma_vec digamma_vec st
    using that by (simp add: loop_body_def)
  have general: "inv_chi_square_cdf ops dy dnu y nu =
           Inr \<lparr>val = running_product ops (map (factor_at ops y nu) [0..<max_size y nu]),
                grad_y =
                  (if dy
                   then Some (map (\<lambda>j. fmul ops
                                (running_sum ops (map (y_share ops y nu)
                                   (positions_of_slot (length_arg y) j y nu)))
                                (running_product ops
                                   (map (factor_at ops y nu) [0..<max_size y nu])))
                              [0..<length_arg y])
                   else None),
                grad_nu =
                  (if dnu
                   then Some (map (\<lambda>j. fmul ops
                                (running_sum ops (map (nu_share ops y nu)
                                   (positions_of_slot (length_arg nu) j y nu)))
                                (running_product ops
                                   (map (factor_at ops y nu) [0..<max_size y nu])))
                              [0..<length_arg nu])
                   else None)\<rparr>"
    if mul1: "\<forall>x. fmul ops x (Fin 1) = x" and add0: "\<forall>x. fadd ops x (Fin 0) = x"
    by (simp add: res total_P_factors [OF mul1] y_slot_shares [OF add0]
        nu_slot_shares [OF add0] y_gradient_def nu_gradient_def)
  have special: "inv_chi_square_cdf ops dy dnu y nu =
              Inr \<lparr>val = Fin 1,
                   grad_y = (if dy then Some [Fin 0] else None),
                   grad_nu = (if dnu then Some (replicate (length_arg nu) (Fin 0)) else None)\<rparr>"
    if "y = Scalar PInf" and zero: "fmul ops (Fin 0) (Fin 1) = Fin 0"
  proof -
    have P: "total_P ops (Scalar PInf) nu = Fin 1"
      by (simp add: total_P_def positions_all_infinite running_product_def)
    have gy: "y_gradient ops (Scalar PInf) nu = [Fin 0]"
      by (simp add: y_gradient_def P slot_positions_def positions_all_infinite
          running_sum_def zero)
    have gnu: "nu_gradient ops (Scalar PInf) nu = replicate (length_arg nu) (Fin 0)"
      by (simp add: nu_gradient_def P slot_positions_def positions_all_infinite
          running_sum_def zero map_replicate_const)
    from res show ?thesis
      unfolding that(1) by (simp add: P gy gnu)
  qed
  from skip general special show ?thesis
    by blast
qed

theorem infinite_variate_is_skipped_witness:
  "valid_input (Scalar PInf) (Seq [Fin 2, Fin 4]) \<and>
   \<not> size_zero (Scalar PInf) (Seq [Fin 2, Fin 4]) \<and>
   Fin 0 \<notin> set (elems (Scalar PInf)) \<and>
   (\<forall>x. fmul exact_ops x (Fin 1) = x) \<and> (\<forall>x. fadd exact_ops x (Fin 0) = x) \<and>
   inv_chi_square_cdf exact_ops True True (Scalar PInf) (Seq [Fin 2, Fin 4]) =
     Inr \<lparr>val = Fin 1, grad_y = Some [Fin 0], grad_nu = Some [Fin 0, Fin 0]\<rparr> \<and>
   valid_input (Seq [PInf, Fin 1]) (Scalar (Fin 2)) \<and>
   \<not> size_zero (Seq [PInf, Fin 1]) (Scalar (Fin 2)) \<and>
   Fin 0 \<notin> set (elems (Seq [PInf, Fin 1])) \<and>
   (0::nat) < max_size (Seq [PInf, Fin 1]) (Scalar (Fin 2)) \<and>
   view (Seq [PInf, Fin 1]) 0 = PInf \<and>
   loop_body exact_ops True False (Seq [PInf, Fin 1]) (Scalar (Fin 2)) [] [] 0
     (init_accum True False (Seq [PInf, Fin 1]) (Scalar (Fin 2))) =
     init_accum True False (Seq [PInf, Fin 1]) (Scalar (Fin 2)) \<and>
   inv_chi_square_cdf exact_ops True False (Seq [PInf, Fin 1]) (Scalar (Fin 2)) =
     Inr \<lparr>val = Fin (exp (- (1/2))), grad_y = Some [Fin 0, Fin (exp (- (1/2)) / 2)],
          grad_nu = None\<rparr>"
proof -
  have h1: "valid_input (Scalar PInf) (Seq [Fin 2, Fin 4])"
    and k1: "valid_input (Seq [PInf, Fin 1]) (Scalar (Fin 2))"
    by (simp_all add: valid_input_def is_positive_finite_def is_nan_def is_nonnegative_def
        consistent_sizes_def max_size_def)
  have h2: "\<not> size_zero (Scalar PInf) (Seq [Fin 2, Fin 4])"
    and k2: "\<not> size_zero (Seq [PInf, Fin 1]) (Scalar (Fin 2))"
    by (simp_all add: size_zero_def)
  have h3: "Fin 0 \<notin> set (elems (Scalar PInf))"
    and k3: "Fin 0 \<notin> set (elems (Seq [PInf, Fin 1]))"
    by simp_all
  have h4: "\<forall>x. fmul exact_ops x (Fin 1) = x"
    by (simp add: mul_exact_one_right)
  have h5: "\<forall>x. fadd exact_ops x (Fin 0) = x"
    by (simp add: add_exact_zero_right)
  have k4: "(0::nat) < max_size (Seq [PInf, Fin 1]) (Scalar (Fin 2))"
    and k5: "view (Seq [PInf, Fin 1]) 0 = PInf"
    by (simp_all add: max_size_def view_def slot_of_def)
  note T1 = infinite_variate_is_skipped [OF h1 h2 h3, of exact_ops True True]
  note T2 = infinite_variate_is_skipped [OF k1 k2 k3, of exact_ops True False]
  from T1 have a: "inv_chi_square_cdf exact_ops True True (Scalar PInf) (Seq [Fin 2, Fin 4]) =
     Inr \<lparr>val = Fin 1, grad_y = Some [Fin 0], grad_nu = Some [Fin 0, Fin 0]\<rparr>"
    by (simp add: numeral_2_eq_2)
  from T2 [THEN conjunct2, THEN conjunct1] h4 h5
  have b: "inv_chi_square_cdf exact_ops True False (Seq [PInf, Fin 1]) (Scalar (Fin 2)) =
     Inr \<lparr>val = Fin (exp (- (1/2))), grad_y = Some [Fin 0, Fin (exp (- (1/2)) / 2)],
          grad_nu = None\<rparr>"
    by (simp add: running_product_def running_sum_def factor_at_def y_share_def
        positions_of_slot_def Pn_at_def y_term_def y_inv_def view_def slot_of_def
        max_size_def sub_exact_def upt_rec Let_def)
  from T2 [THEN conjunct1, rule_format, OF k4 k5]
  have c: "loop_body exact_ops True False (Seq [PInf, Fin 1]) (Scalar (Fin 2)) [] [] 0
     (init_accum True False (Seq [PInf, Fin 1]) (Scalar (Fin 2))) =
     init_accum True False (Seq [PInf, Fin 1]) (Scalar (Fin 2))" .
  from a b c h1 h2 h3 h4 h5 k1 k2 k3 k4 k5 show ?thesis
    by blast
qed

section \<open>The gradients\<close>

lemma filter_single:
  "filter (\<lambda>k. P k \<and> k = n) [0..<N] = (if n < N \<and> P n then [n] else [])"
  by (induction N) (auto simp: less_Suc_eq)

lemma slot_positions_own:
  assumes "length_arg y = max_size y nu" and "n < max_size y nu" and "view y n \<noteq> PInf"
  shows "slot_positions (length_arg y) n y nu = [n]"
proof (cases "max_size y nu = 1")
  case True
  with assms show ?thesis
    by (simp add: slot_positions_def positions_def slot_of_def)
next
  case False
  with assms filter_single [of "\<lambda>k. view y k \<noteq> PInf" n "max_size y nu"] show ?thesis
    by (simp add: slot_positions_def positions_def slot_of_def)
qed

lemma y_term_quantity: "y_term ops y nu n = y_quantity ops (view nu n) (view y n)"
  by (simp add: y_term_def y_quantity_def Q_factor_def Pn_at_def y_inv_def Let_def)

lemma Pn_at_factor: "Pn_at ops y nu n = Q_factor ops (view nu n) (view y n)"
  by (simp add: Pn_at_def Q_factor_def y_inv_def)

text \<open>
  Claim C2, as amended. For every valid non-empty input with \<open>y\<close> differentiable and no
  element of \<open>y\<close> equal to 0, the call returns the total product \<open>P\<close> of the factors
  \<open>Pn = Q(nu(n)/2, (1/y(n))/2)\<close> and one gradient slot per element of \<open>y\<close>; slot \<open>j\<close> is the
  sum, accumulated from 0.0 in position order, of the quantities
  \<open>0.5 * y_inv\<^sup>2 * exp(-0.5*y_inv) * (0.5*y_inv)^(nu(n)/2 - 1) / \<Gamma>(nu(n)/2) / Pn\<close> of the
  positions \<open>n\<close> with \<open>y(n)\<close> not \<open>+\<infinity>\<close> that map to element \<open>j\<close>, multiplied by \<open>P\<close>. When \<open>y\<close> is
  not broadcast (\<open>len(y) = N\<close>) the slot of such a position \<open>n\<close> is that single quantity,
  added to 0.0, times \<open>P\<close>.
\<close>

theorem y_gradient_scaled_by_total:
  assumes "valid_input y nu" and "\<not> size_zero y nu" and "Fin 0 \<notin> set (elems y)"
  shows "value_channel (inv_chi_square_cdf ops True dnu y nu) =
           Some (running_product ops
                   (map (\<lambda>n. Q_factor ops (view nu n) (view y n))
                      (filter (\<lambda>n. view y n \<noteq> PInf)
                         [0..<max (length_arg y) (length_arg nu)]))) \<and>
         grad_y_channel (inv_chi_square_cdf ops True dnu y nu) =
           Some (map (\<lambda>j. fmul ops
                       (running_sum ops
                          (map (\<lambda>n. y_quantity ops (view nu n) (view y n))
                             (filter (\<lambda>n. view y n \<noteq> PInf \<and> slot_of (length_arg y) n = j)
                                [0..<max (length_arg y) (length_arg nu)])))
                       (running_product ops
                          (map (\<lambda>n. Q_factor ops (view nu n) (view y n))
                             (filter (\<lambda>n. view y n \<noteq> PInf)
                                [0..<max (length_arg y) (length_arg nu)]))))
                   [0..<length_arg y]) \<and>
         (length_arg y = max (length_arg y) (length_arg nu) \<longrightarrow>
            (\<forall>n<length_arg y. view y n \<noteq> PInf \<longrightarrow>
               map_option (\<lambda>gs. gs ! n) (grad_y_channel (inv_chi_square_cdf ops True dnu y nu)) =
                 Some (fmul ops
                         (fadd ops (Fin 0) (y_quantity ops (view nu n) (view y n)))
                         (running_product ops
                            (map (\<lambda>n. Q_factor ops (view nu n) (view y n))
                               (filter (\<lambda>n. view y n \<noteq> PInf)
                                  [0..<max (length_arg y) (length_arg nu)]))))))"
proof -
  let ?P = "running_product ops
              (map (\<lambda>n. Q_factor ops (view nu n) (view y n))
                 (filter (\<lambda>n. view y n \<noteq> PInf) [0..<max (length_arg y) (length_arg nu)]))"
  have "\<not> zero_scan (elems y)"
    using assms(3) by (simp add: zero_scan_iff)
  note res = cdf_result [OF assms(1,2) this, of ops True dnu]
  have P: "total_P ops y nu = ?P"
    by (simp add: total_P_def positions_def max_size_def Pn_at_factor cong: map_cong)
  have terms: "map (y_term ops y nu) ns = map (\<lambda>n. y_quantity ops (view nu n) (view y n)) ns"
    for ns
    by (simp add: y_term_quantity)
  have slots: "slot_positions (length_arg y) j y nu =
      filter (\<lambda>n. view y n \<noteq> PInf \<and> slot_of (length_arg y) n = j)
        [0..<max (length_arg y) (length_arg nu)]" for j
    by (simp add: slot_positions_def positions_def max_size_def conj_commute)
  have G: "y_gradient ops y nu =
      map (\<lambda>j. fmul ops
             (running_sum ops
                (map (\<lambda>n. y_quantity ops (view nu n) (view y n))
                   (filter (\<lambda>n. view y n \<noteq> PInf \<and> slot_of (length_arg y) n = j)
                      [0..<max (length_arg y) (length_arg nu)])))
             ?P)
        [0..<length_arg y]"
    by (simp add: y_gradient_def P terms slots)
  have val: "value_channel (inv_chi_square_cdf ops True dnu y nu) = Some ?P"
    by (simp add: res value_channel_def P)
  have grad: "grad_y_channel (inv_chi_square_cdf ops True dnu y nu) = Some (y_gradient ops y nu)"
    by (simp add: res grad_y_channel_def)
  have own: "map_option (\<lambda>gs. gs ! n) (grad_y_channel (inv_chi_square_cdf ops True dnu y nu)) =
      Some (fmul ops (fadd ops (Fin 0) (y_quantity ops (view nu n) (view y n))) ?P)"
    if "length_arg y = max (length_arg y) (length_arg nu)" "n < length_arg y"
      "view y n \<noteq> PInf" for n
  proof -
    have "slot_positions (length_arg y) n y nu = [n]"
      using that by (intro slot_positions_own) (simp_all add: max_size_def)
    then have "y_gradient ops y nu ! n =
        fmul ops (fadd ops (Fin 0) (y_term ops y nu n)) (total_P ops y nu)"
      using that(2) by (simp add: y_gradient_def running_sum_def)
    then show ?thesis
      by (simp add: grad y_term_quantity P)
  qed
  have c2: "grad_y_channel (inv_chi_square_cdf ops True dnu y nu) =
      Some (map (\<lambda>j. fmul ops
                  (running_sum ops
                     (map (\<lambda>n. y_quantity ops (view nu n) (view y n))
                        (filter (\<lambda>n. view y n \<noteq> PInf \<and> slot_of (length_arg y) n = j)
                           [0..<max (length_arg y) (length_arg nu)])))
                  ?P)
              [0..<length_arg y])"
    by (simp only: grad G)
  show ?thesis
    by (intro conjI impI allI) (rule val, rule c2, rule own)
qed

theorem y_gradient_scaled_by_total_witness:
  "valid_input (Seq [Fin 1, Fin (1/2)]) (Scalar (Fin 4)) \<and>
   \<not> size_zero (Seq [Fin 1, Fin (1/2)]) (Scalar (Fin 4)) \<and>
   Fin 0 \<notin> set (elems (Seq [Fin 1, Fin (1/2)])) \<and>
   length_arg (Seq [Fin 1, Fin (1/2)]) =
     max (length_arg (Seq [Fin 1, Fin (1/2)])) (length_arg (Scalar (Fin 4))) \<and>
   (0::nat) < length_arg (Seq [Fin 1, Fin (1/2)]) \<and>
   view (Seq [Fin 1, Fin (1/2)]) 0 \<noteq> PInf \<and>
   Q_factor exact_ops (Fin 4) (Fin 1) = Fin (exp (- (1/2)) * 3 / 2) \<and>
   Q_factor exact_ops (Fin 4) (Fin (1/2)) = Fin (exp (- 1) * 2) \<and>
   y_quantity exact_ops (Fin 4) (Fin 1) = Fin (1/6) \<and>
   y_quantity exact_ops (Fin 4) (Fin (1/2)) = Fin 1 \<and>
   value_channel (inv_chi_square_cdf exact_ops True False (Seq [Fin 1, Fin (1/2)])
       (Scalar (Fin 4))) = Some (Fin (3 * (exp (- 1) * exp (- (1/2))))) \<and>
   grad_y_channel (inv_chi_square_cdf exact_ops True False (Seq [Fin 1, Fin (1/2)])
       (Scalar (Fin 4))) =
     Some [Fin (exp (- 1) * exp (- (1/2)) / 2), Fin (3 * (exp (- 1) * exp (- (1/2))))] \<and>
   map_option (\<lambda>gs. gs ! 0)
     (grad_y_channel (inv_chi_square_cdf exact_ops True False (Seq [Fin 1, Fin (1/2)])
        (Scalar (Fin 4)))) = Some (Fin (exp (- 1) * exp (- (1/2)) / 2))"
proof -
  have h1: "valid_input (Seq [Fin 1, Fin (1/2)]) (Scalar (Fin 4))"
    by (simp add: valid_input_def is_positive_finite_def is_nan_def is_nonnegative_def
        consistent_sizes_def max_size_def)
  have h2: "\<not> size_zero (Seq [Fin 1, Fin (1/2)]) (Scalar (Fin 4))"
    by (simp add: size_zero_def)
  have h3: "Fin 0 \<notin> set (elems (Seq [Fin 1, Fin (1/2)]))"
    by simp
  have h4: "length_arg (Seq [Fin 1, Fin (1/2)]) =
      max (length_arg (Seq [Fin 1, Fin (1/2)])) (length_arg (Scalar (Fin 4)))"
    and h5: "(0::nat) < length_arg (Seq [Fin 1, Fin (1/2)])"
    and h6: "view (Seq [Fin 1, Fin (1/2)]) 0 \<noteq> PInf"
    by (simp_all add: view_def slot_of_def)
  have q: "Q_factor exact_ops (Fin 4) (Fin 1) = Fin (exp (- (1/2)) * 3 / 2)"
    "Q_factor exact_ops (Fin 4) (Fin (1/2)) = Fin (exp (- 1) * 2)"
    "y_quantity exact_ops (Fin 4) (Fin 1) = Fin (1/6)"
    "y_quantity exact_ops (Fin 4) (Fin (1/2)) = Fin 1"
    by (simp_all add: y_quantity_def Q_factor_def sub_exact_def numeral_2_eq_2)
  note T = y_gradient_scaled_by_total [OF h1 h2 h3, of exact_ops False]
  from T [THEN conjunct1]
  have v: "value_channel (inv_chi_square_cdf exact_ops True False (Seq [Fin 1, Fin (1/2)])
       (Scalar (Fin 4))) = Some (Fin (3 * (exp (- 1) * exp (- (1/2)))))"
    by (simp add: running_product_def view_def slot_of_def upt_rec q)
  from T [THEN conjunct2, THEN conjunct1]
  have g: "grad_y_channel (inv_chi_square_cdf exact_ops True False (Seq [Fin 1, Fin (1/2)])
       (Scalar (Fin 4))) =
     Some [Fin (exp (- 1) * exp (- (1/2)) / 2), Fin (3 * (exp (- 1) * exp (- (1/2))))]"
    by (simp add: running_product_def running_sum_def view_def slot_of_def upt_rec q)
  from T [THEN conjunct2, THEN conjunct2, rule_format, OF h4 h5 h6]
  have o: "map_option (\<lambda>gs. gs ! 0)
     (grad_y_channel (inv_chi_square_cdf exact_ops True False (Seq [Fin 1, Fin (1/2)])
        (Scalar (Fin 4)))) = Some (Fin (exp (- 1) * exp (- (1/2)) / 2))"
    by (simp add: running_product_def view_def slot_of_def upt_rec q)
  from h1 h2 h3 h4 h5 h6 q v g o show ?thesis
    by blast
qed

text \<open>
  Claim C2 as stated, for every valid input, fails where \<open>y\<close> is broadcast: for a single
  \<open>y = 1\<close> and \<open>nu = [2, 2]\<close> the one slot of \<open>y\<close> holds the sum of the quantities of both
  positions times \<open>P\<close>, which is \<open>P\<close>, and not \<open>P\<close> times the quantity of position 0 or of
  position 1, which is \<open>P / 2\<close>.
\<close>

theorem y_gradient_scaled_by_total_counterexample:
  "valid_input (Scalar (Fin 1)) (Seq [Fin 2, Fin 2]) \<and>
   \<not> size_zero (Scalar (Fin 1)) (Seq [Fin 2, Fin 2]) \<and>
   Fin 0 \<notin> set (elems (Scalar (Fin 1))) \<and>
   view (Scalar (Fin 1)) 0 \<noteq> PInf \<and> view (Scalar (Fin 1)) 1 \<noteq> PInf \<and>
   value_channel (inv_chi_square_cdf exact_ops True False (Scalar (Fin 1)) (Seq [Fin 2, Fin 2]))
     = Some (Fin (exp (- (1/2)) * exp (- (1/2)))) \<and>
   grad_y_channel (inv_chi_square_cdf exact_ops True False (Scalar (Fin 1)) (Seq [Fin 2, Fin 2]))
     = Some [Fin (exp (- (1/2)) * exp (- (1/2)))] \<and>
   mul_exact (Fin (exp (- (1/2)) * exp (- (1/2))))
     (y_term exact_ops (Scalar (Fin 1)) (Seq [Fin 2, Fin 2]) 0)
     = Fin (exp (- (1/2)) * exp (- (1/2)) / 2) \<and>
   mul_exact (Fin (exp (- (1/2)) * exp (- (1/2))))
     (y_term exact_ops (Scalar (Fin 1)) (Seq [Fin 2, Fin 2]) 1)
     = Fin (exp (- (1/2)) * exp (- (1/2)) / 2) \<and>
   y_quantity exact_ops (Fin 2) (Fin 1) = Fin (1/2) \<and>
   mul_exact (Fin (exp (- (1/2)) * exp (- (1/2)))) (y_quantity exact_ops (Fin 2) (Fin 1))
     = Fin (exp (- (1/2)) * exp (- (1/2)) / 2) \<and>
   Fin (exp (- (1/2)) * exp (- (1/2))) \<noteq> Fin (exp (- (1/2)) * exp (- (1/2)) / 2)"
  by (simp add: inv_chi_square_cdf_def size_zero_def check_positive_finite_def
      check_not_nan_def check_nonnegative_def check_consistent_sizes_def consistent_sizes_def
      max_size_def is_positive_finite_def is_nan_def is_nonnegative_def init_accum_def
      build_def for_loop_foldl loop_body_def view_def slot_of_def y_inv_def Pn_at_def
      y_term_def add_at_def scale_at_def sub_exact_def valid_input_def value_channel_def
      grad_y_channel_def y_quantity_def Q_factor_def Let_def upt_rec)

text \<open>
  Claim C3. When \<open>nu\<close> is a differentiable single value and \<open>y\<close> is a sequence of length 2
  (valid, no zero, no infinity), the one gradient slot of \<open>nu\<close> is the sum over both
  positions of \<open>0.5 * grad_Q(nu/2, (1/y(n))/2, \<Gamma>(nu/2), \<psi>(nu/2)) / Pn\<close>, accumulated from 0.0,
  multiplied once by the total product \<open>P\<close>: the second position adds to what the first
  left in the slot.
\<close>

theorem nu_gradient_sums_broadcast_positions:
  assumes "is_positive_finite nu_dbl"
    and "is_nonnegative y0" and "\<not> is_nan y0" and "y0 \<noteq> Fin 0" and "y0 \<noteq> PInf"
    and "is_nonnegative y1" and "\<not> is_nan y1" and "y1 \<noteq> Fin 0" and "y1 \<noteq> PInf"
  shows "value_channel (inv_chi_square_cdf ops dy True (Seq [y0, y1]) (Scalar nu_dbl)) =
           Some (fmul ops (fmul ops (Fin 1) (Q_factor ops nu_dbl y0)) (Q_factor ops nu_dbl y1)) \<and>
         grad_nu_channel (inv_chi_square_cdf ops dy True (Seq [y0, y1]) (Scalar nu_dbl)) =
           Some [fmul ops
                   (fadd ops (fadd ops (Fin 0) (grad_Q_quantity ops nu_dbl y0))
                      (grad_Q_quantity ops nu_dbl y1))
                   (fmul ops (fmul ops (Fin 1) (Q_factor ops nu_dbl y0))
                      (Q_factor ops nu_dbl y1))]"
proof -
  let ?y = "Seq [y0, y1]" and ?nu = "Scalar nu_dbl"
  have v: "valid_input ?y ?nu"
    using assms by (simp add: valid_input_def consistent_sizes_def max_size_def)
  have nz: "\<not> size_zero ?y ?nu"
    by (simp add: size_zero_def)
  have z: "\<not> zero_scan (elems ?y)"
    using assms by simp
  have pos: "positions ?y ?nu = [0, 1]"
    using assms by (simp add: positions_def max_size_def view_def slot_of_def upt_rec)
  have P: "total_P ops ?y ?nu =
      fmul ops (fmul ops (Fin 1) (Q_factor ops nu_dbl y0)) (Q_factor ops nu_dbl y1)"
    by (simp add: total_P_def pos running_product_def Pn_at_def Q_factor_def y_inv_def
        view_def slot_of_def)
  have G: "nu_gradient ops ?y ?nu =
      [fmul ops
         (fadd ops (fadd ops (Fin 0) (grad_Q_quantity ops nu_dbl y0))
            (grad_Q_quantity ops nu_dbl y1))
         (total_P ops ?y ?nu)]"
    by (simp add: nu_gradient_def slot_positions_def pos running_sum_def nu_term_def
        grad_Q_quantity_def Q_factor_def Pn_at_def y_inv_def view_def slot_of_def
        precompute_gamma_def precompute_digamma_def)
  from cdf_result [OF v nz z, of ops dy True] show ?thesis
    by (simp add: value_channel_def grad_nu_channel_def G P)
qed

theorem nu_gradient_sums_broadcast_positions_witness:
  "is_positive_finite (Fin 2) \<and>
   is_nonnegative (Fin 1) \<and> \<not> is_nan (Fin 1) \<and> Fin 1 \<noteq> Fin 0 \<and> Fin 1 \<noteq> PInf \<and>
   is_nonnegative (Fin (1/2)) \<and> \<not> is_nan (Fin (1/2)) \<and> Fin (1/2) \<noteq> Fin 0 \<and>
   Fin (1/2) \<noteq> PInf \<and>
   grad_nu_channel (inv_chi_square_cdf exact_ops False True (Seq [Fin 1, Fin (1/2)])
      (Scalar (Fin 2))) =
     Some [fmul exact_ops
             (fadd exact_ops (fadd exact_ops (Fin 0) (grad_Q_quantity exact_ops (Fin 2) (Fin 1)))
                (grad_Q_quantity exact_ops (Fin 2) (Fin (1/2))))
             (fmul exact_ops (fmul exact_ops (Fin 1) (Q_factor exact_ops (Fin 2) (Fin 1)))
                (Q_factor exact_ops (Fin 2) (Fin (1/2))))] \<and>
   grad_Q_quantity exact_ops (Fin 2) (Fin 1) = Fin (1/4) \<and>
   grad_Q_quantity exact_ops (Fin 2) (Fin (1/2)) = Fin (1/2) \<and>
   Q_factor exact_ops (Fin 2) (Fin 1) = Fin (exp (- (1/2))) \<and>
   Q_factor exact_ops (Fin 2) (Fin (1/2)) = Fin (exp (- 1))"
proof -
  have h: "is_positive_finite (Fin 2)"
    "is_nonnegative (Fin 1)" "\<not> is_nan (Fin 1)" "Fin 1 \<noteq> Fin 0" "Fin 1 \<noteq> PInf"
    "is_nonnegative (Fin (1/2))" "\<not> is_nan (Fin (1/2))" "Fin (1/2) \<noteq> Fin 0"
    "Fin (1/2) \<noteq> PInf"
    by (simp_all add: is_positive_finite_def is_nonnegative_def is_nan_def)
  have q: "grad_Q_quantity exact_ops (Fin 2) (Fin 1) = Fin (1/4)"
    "grad_Q_quantity exact_ops (Fin 2) (Fin (1/2)) = Fin (1/2)"
    "Q_factor exact_ops (Fin 2) (Fin 1) = Fin (exp (- (1/2)))"
    "Q_factor exact_ops (Fin 2) (Fin (1/2)) = Fin (exp (- 1))"
    by (simp_all add: grad_Q_quantity_def Q_factor_def)
  from nu_gradient_sums_broadcast_positions [OF h, of exact_ops False] h q
  show ?thesis
    by blast
qed

section \<open>Broadcasting of the value\<close>

text \<open>
  Claim C8, as amended. For every valid single \<open>nu\<close> and every pair of positive finite
  \<open>y1\<close>, \<open>y2\<close>, the value channel of \<open>cdf([y1, y2], nu)\<close> is the single number
  \<open>cdf(y1, nu) * cdf(y2, nu)\<close>, the product of the element-wise values. The arithmetic
  supplied is taken to satisfy \<open>1.0 * x = x\<close>.
\<close>

theorem broadcast_value_is_product:
  assumes "is_positive_finite nu_dbl" and "is_positive_finite y1" and "is_positive_finite y2"
    and "\<forall>x. fmul ops (Fin 1) x = x"
  shows "value_channel (inv_chi_square_cdf ops dy dnu (Seq [y1, y2]) (Scalar nu_dbl)) =
           channel_product ops (value_channel (inv_chi_square_cdf ops dy dnu (Scalar y1) (Scalar nu_dbl)))
                     (value_channel (inv_chi_square_cdf ops dy dnu (Scalar y2) (Scalar nu_dbl))) \<and>
         value_channel (inv_chi_square_cdf ops dy dnu (Seq [y1, y2]) (Scalar nu_dbl)) =
           Some (fmul ops (Q_factor ops nu_dbl y1) (Q_factor ops nu_dbl y2))"
proof -
  have ok: "is_nonnegative v \<and> \<not> is_nan v \<and> v \<noteq> Fin 0 \<and> v \<noteq> PInf"
    if "is_positive_finite v" for v
    using that by (cases v) (simp_all add: is_positive_finite_def is_nonnegative_def is_nan_def)
  note y1 = ok [OF assms(2)] and y2 = ok [OF assms(3)]
  have single: "value_channel (inv_chi_square_cdf ops dy dnu (Scalar v) (Scalar nu_dbl)) =
      Some (Q_factor ops nu_dbl v)" if "is_positive_finite v" for v
  proof -
    have "valid_input (Scalar v) (Scalar nu_dbl)"
      using assms(1) ok [OF that] by (simp add: valid_input_def consistent_sizes_def max_size_def)
    moreover have "\<not> size_zero (Scalar v) (Scalar nu_dbl)"
      by (simp add: size_zero_def)
    moreover have "\<not> zero_scan (elems (Scalar v))"
      using ok [OF that] by simp
    ultimately have "value_channel (inv_chi_square_cdf ops dy dnu (Scalar v) (Scalar nu_dbl)) =
        Some (total_P ops (Scalar v) (Scalar nu_dbl))"
      by (simp add: cdf_result value_channel_def)
    moreover have "total_P ops (Scalar v) (Scalar nu_dbl) = Q_factor ops nu_dbl v"
      using ok [OF that] assms(4)
      by (simp add: total_P_def positions_def running_product_def Pn_at_def Q_factor_def
          y_inv_def view_def slot_of_def max_size_def)
    ultimately show ?thesis by simp
  qed
  have "valid_input (Seq [y1, y2]) (Scalar nu_dbl)"
    using assms(1) y1 y2 by (simp add: valid_input_def consistent_sizes_def max_size_def)
  moreover have "\<not> size_zero (Seq [y1, y2]) (Scalar nu_dbl)"
    by (simp add: size_zero_def)
  moreover have "\<not> zero_scan (elems (Seq [y1, y2]))"
    using y1 y2 by simp
  ultimately have "value_channel (inv_chi_square_cdf ops dy dnu (Seq [y1, y2]) (Scalar nu_dbl)) =
      Some (total_P ops (Seq [y1, y2]) (Scalar nu_dbl))"
    by (simp add: cdf_result value_channel_def)
  moreover have "total_P ops (Seq [y1, y2]) (Scalar nu_dbl) =
      fmul ops (Q_factor ops nu_dbl y1) (Q_factor ops nu_dbl y2)"
    using y1 y2 assms(4)
    by (simp add: total_P_def positions_def running_product_def Pn_at_def Q_factor_def
        y_inv_def view_def slot_of_def max_size_def upt_rec)
  ultimately show ?thesis
    by (simp add: single [OF assms(2)] single [OF assms(3)] channel_product_def)
qed

theorem broadcast_value_is_product_witness:
  "is_positive_finite (Fin 2) \<and> is_positive_finite (Fin 1) \<and> is_positive_finite (Fin (1/2)) \<and>
   (\<forall>x. fmul exact_ops (Fin 1) x = x) \<and>
   value_channel (inv_chi_square_cdf exact_ops True True (Seq [Fin 1, Fin (1/2)]) (Scalar (Fin 2)))
     = channel_product exact_ops
        (value_channel (inv_chi_square_cdf exact_ops True True (Scalar (Fin 1)) (Scalar (Fin 2))))
        (value_channel (inv_chi_square_cdf exact_ops True True (Scalar (Fin (1/2))) (Scalar (Fin 2)))) \<and>
   value_channel (inv_chi_square_cdf exact_ops True True (Seq [Fin 1, Fin (1/2)]) (Scalar (Fin 2)))
     = Some (fmul exact_ops (Q_factor exact_ops (Fin 2) (Fin 1))
               (Q_factor exact_ops (Fin 2) (Fin (1/2)))) \<and>
   fmul exact_ops (Q_factor exact_ops (Fin 2) (Fin 1)) (Q_factor exact_ops (Fin 2) (Fin (1/2)))
     = Fin (exp (- (1/2)) * exp (- 1))"
proof -
  have h: "is_positive_finite (Fin 2)" "is_positive_finite (Fin 1)"
    "is_positive_finite (Fin (1/2))"
    by (simp_all add: is_positive_finite_def)
  have law: "\<forall>x. fmul exact_ops (Fin 1) x = x"
    by (simp add: mul_exact_one_left)
  have q: "fmul exact_ops (Q_factor exact_ops (Fin 2) (Fin 1))
             (Q_factor exact_ops (Fin 2) (Fin (1/2))) = Fin (exp (- (1/2)) * exp (- 1))"
    by (simp add: Q_factor_def)
  from broadcast_value_is_product [OF h law, of True True] h law q
  show ?thesis
    by blast
qed

text \<open>
  Claim C8 as stated fails: the call returns one number, the product of the
  probabilities, and not the element-wise values. For \<open>y = [1, 1]\<close> and \<open>nu = 2\<close> it returns
  \<open>e\<^sup>-\<^sup>1\<^sup>/\<^sup>2 * e\<^sup>-\<^sup>1\<^sup>/\<^sup>2\<close>, while \<open>cdf(1, 2)\<close> is \<open>e\<^sup>-\<^sup>1\<^sup>/\<^sup>2\<close>.
\<close>

theorem broadcast_value_is_product_counterexample:
  "value_channel (inv_chi_square_cdf exact_ops False False (Seq [Fin 1, Fin 1]) (Scalar (Fin 2)))
     = Some (Fin (exp (- (1/2)) * exp (- (1/2)))) \<and>
   value_channel (inv_chi_square_cdf exact_ops False False (Scalar (Fin 1)) (Scalar (Fin 2)))
     = Some (Fin (exp (- (1/2)))) \<and>
   Fin (exp (- (1/2)) * exp (- (1/2))) \<noteq> Fin (exp (- (1/2)))"
  by (simp add: inv_chi_square_cdf_def size_zero_def check_positive_finite_def
      check_not_nan_def check_nonnegative_def check_consistent_sizes_def consistent_sizes_def
      max_size_def is_positive_finite_def is_nan_def is_nonnegative_def init_accum_def
      build_def for_loop_foldl loop_body_def view_def slot_of_def y_inv_def Pn_at_def
      value_channel_def Let_def upt_rec)

end
